theory Spec2Isabelle
  imports Main "HOL-Library.Word"
begin

section \<open>Data model of \<^verbatim>\<open>src/Assets/Model.cpp\<close>\<close>

text \<open>
  The type variable \<open>'f\<close> stands for the C++ \<^verbatim>\<open>float\<close>.  No law of arithmetic is
  assumed for it: the constants \<open>0\<close>, \<open>1\<close> and the operations \<open>+\<close>, \<open>-\<close> come from the
  purely syntactic classes \<open>zero\<close>, \<open>one\<close>, \<open>plus\<close>, \<open>minus\<close>, and the literal
  \<^verbatim>\<open>0.7f\<close> is a parameter of \<open>LoadModel\<close>.

  Modelled from the spec: \<^verbatim>\<open>Vertex::operator==\<close> is declared in a header that is not
  part of the sources.  The spec fixes it as the exact field-wise comparison of the
  attribute tuple, without tolerance; this is HOL equality on the record \<open>Vertex\<close>.
  The hash of lines 21-41 only selects the bucket of the \<^verbatim>\<open>unordered_map\<close>; the map is
  modelled by what it stores, a partial function from vertices to indices.
\<close>

datatype 'f vec2 = Vec2 'f 'f
datatype 'f vec3 = Vec3 'f 'f 'f
datatype 'f vec4 = Vec4 'f 'f 'f 'f

record 'f Vertex =
  Position :: "'f vec3"
  Normal :: "'f vec3"
  TexCoord :: "'f vec2"
  MaterialIndex :: int

record 'f Material =
  Diffuse :: "'f vec4"

text \<open>\<^verbatim>\<open>new Sphere(center, radius)\<close>, held through a \<^verbatim>\<open>const Procedural*\<close>;
  \<^verbatim>\<open>nullptr\<close> is \<open>None\<close>.\<close>

datatype 'f Procedural = Sphere "'f vec3" 'f

text \<open>The members \<^verbatim>\<open>vertices_\<close>, \<^verbatim>\<open>indices_\<close>, \<^verbatim>\<open>materials_\<close>, \<^verbatim>\<open>procedural_\<close>
  (a name cannot end with an underscore here).  Indices are \<^verbatim>\<open>uint32_t\<close>.\<close>

record 'f Model =
  m_vertices :: "'f Vertex list"
  m_indices :: "32 word list"
  m_materials :: "'f Material list"
  m_procedural :: "'f Procedural option"

text \<open>What a call can end with instead of a value: the \<^verbatim>\<open>std::runtime_error\<close> that
  \<^verbatim>\<open>Throw\<close> raises, and the two undefined behaviours the code can reach, made explicit:
  \<^verbatim>\<open>std::vector::operator[]\<close> out of range and signed \<^verbatim>\<open>int\<close> overflow.\<close>

datatype error = RuntimeError string | OutOfRange | SignedOverflow

definition bind_error :: "error + 'a \<Rightarrow> ('a \<Rightarrow> error + 'b) \<Rightarrow> error + 'b" where
  "bind_error r k = (case r of Inl e \<Rightarrow> Inl e | Inr a \<Rightarrow> k a)"

text \<open>\<^verbatim>\<open>v[n]\<close> for a \<^verbatim>\<open>size_t n\<close>.\<close>

definition at :: "'a list \<Rightarrow> nat \<Rightarrow> error + 'a" where
  "at v n = (if n < length v then Inr (v ! n) else Inl OutOfRange)"

text \<open>\<^verbatim>\<open>v[s * i + k]\<close> for \<^verbatim>\<open>int\<close> operands: the index is computed in 32-bit signed
  arithmetic and converted to \<^verbatim>\<open>size_t\<close>, where a negative value becomes a huge one.\<close>

definition in_int_range :: "int \<Rightarrow> bool" where
  "in_int_range n = (- (2 ^ 31) \<le> n \<and> n < 2 ^ 31)"

definition at_int :: "'a list \<Rightarrow> int \<Rightarrow> int \<Rightarrow> int \<Rightarrow> error + 'a" where
  "at_int v s i k =
     (if \<not> in_int_range (s * i) \<or> \<not> in_int_range (s * i + k) then Inl SignedOverflow
      else if s * i + k < 0 then Inl OutOfRange
      else at v (nat (s * i + k)))"

subsection \<open>\<^verbatim>\<open>Model::SetMaterial\<close> (lines 178-186)\<close>

text \<open>A \<^verbatim>\<open>void\<close> method that mutates the object or throws: the result is the outcome
  together with the object as the call leaves it.\<close>

definition SetMaterial :: "'f Material \<Rightarrow> 'f Model \<Rightarrow> (error + unit) \<times> 'f Model" where
  "SetMaterial material m =
     (if length (m_materials m) \<noteq> 1
      then (Inl (RuntimeError ''cannot change material on a multi-material model''), m)
      else (Inr (), m\<lparr>m_materials := (m_materials m)[0 := material]\<rparr>))"

subsection \<open>\<^verbatim>\<open>Model::Transform\<close> (lines 188-197)\<close>

text \<open>\<^verbatim>\<open>glm::vec4(v, w)\<close> and the conversion of a \<^verbatim>\<open>vec4\<close> to a \<^verbatim>\<open>vec3\<close>, which drops
  the last component.\<close>

fun vec4_of :: "'f vec3 \<Rightarrow> 'f \<Rightarrow> 'f vec4" where
  "vec4_of (Vec3 a b c) w = Vec4 a b c w"

fun vec3_of :: "'f vec4 \<Rightarrow> 'f vec3" where
  "vec3_of (Vec4 a b c w) = Vec3 a b c"

text \<open>The matrix type \<open>'m\<close> and the two operations of the glm library, the product
  \<^verbatim>\<open>mat4 * vec4\<close> and \<^verbatim>\<open>glm::inverseTranspose\<close>, are parameters.  The loop runs over
  the vertices by reference, in order.\<close>

function transform_loop ::
  "('m \<Rightarrow> 'f vec4 \<Rightarrow> 'f vec4) \<Rightarrow> 'm \<Rightarrow> 'm \<Rightarrow> ('f::{zero,one}) Vertex list \<Rightarrow> nat
     \<Rightarrow> 'f Vertex list"
where
  "transform_loop mul transform transformIT vs i =
     (if i < length vs
      then transform_loop mul transform transformIT
             (vs[i := (vs ! i)\<lparr>
                Position := vec3_of (mul transform (vec4_of (Position (vs ! i)) 1)),
                Normal := vec3_of (mul transformIT (vec4_of (Normal (vs ! i)) 0))\<rparr>])
             (Suc i)
      else vs)"
  by pat_completeness auto
termination
  by (relation "measure (\<lambda>(mul, transform, transformIT, vs, i). length vs - i)") auto

declare transform_loop.simps [simp del]

definition Transform ::
  "('m \<Rightarrow> 'f vec4 \<Rightarrow> 'f vec4) \<Rightarrow> ('m \<Rightarrow> 'm) \<Rightarrow> 'm \<Rightarrow> ('f::{zero,one}) Model \<Rightarrow> 'f Model"
where
  "Transform mul inverseTranspose transform m =
     (let transformIT = inverseTranspose transform
      in m\<lparr>m_vertices := transform_loop mul transform transformIT (m_vertices m) 0\<rparr>)"

subsection \<open>\<^verbatim>\<open>Model::CreateSphere\<close> (lines 152-176)\<close>

text \<open>The class \<^verbatim>\<open>Icosphere\<close> is an external generator; what the code reads of it
  are its five accessors.  Its constructor is a parameter of \<open>CreateSphere\<close>.\<close>

record 'f Icosphere =
  VertexCount :: nat
  Vertices :: "'f list"
  Normals :: "'f list"
  TexCoords :: "'f list"
  Indices :: "32 word list"

fun vec3_add :: "('f::plus) vec3 \<Rightarrow> 'f vec3 \<Rightarrow> 'f vec3" where
  "vec3_add (Vec3 a b c) (Vec3 d e f) = Vec3 (a + d) (b + e) (c + f)"

text \<open>The body of the loop, for one \<^verbatim>\<open>i\<close>: the vertex that is pushed.\<close>

definition sphere_vertex :: "('f::plus) Icosphere \<Rightarrow> 'f vec3 \<Rightarrow> nat \<Rightarrow> error + 'f Vertex" where
  "sphere_vertex icosphere center i =
     bind_error (at (Vertices icosphere) (i * 3 + 0)) (\<lambda>px.
     bind_error (at (Vertices icosphere) (i * 3 + 1)) (\<lambda>py.
     bind_error (at (Vertices icosphere) (i * 3 + 2)) (\<lambda>pz.
     bind_error (at (Normals icosphere) (i * 3 + 0)) (\<lambda>nx.
     bind_error (at (Normals icosphere) (i * 3 + 1)) (\<lambda>ny.
     bind_error (at (Normals icosphere) (i * 3 + 2)) (\<lambda>nz.
     bind_error (at (TexCoords icosphere) (i * 2 + 0)) (\<lambda>tu.
     bind_error (at (TexCoords icosphere) (i * 2 + 1)) (\<lambda>tv.
       Inr \<lparr>Position = vec3_add (Vec3 px py pz) center,
            Normal = Vec3 nx ny nz,
            TexCoord = Vec2 tu tv,
            MaterialIndex = 0\<rparr>))))))))"

text \<open>\<^verbatim>\<open>for (size_t i = 0; i != icosphere.VertexCount(); ++i)\<close>, with the vertices
  pushed so far.\<close>

function sphere_loop ::
  "('f::plus) Icosphere \<Rightarrow> 'f vec3 \<Rightarrow> nat \<Rightarrow> 'f Vertex list \<Rightarrow> error + 'f Vertex list"
where
  "sphere_loop icosphere center i vertices =
     (if i < VertexCount icosphere
      then bind_error (sphere_vertex icosphere center i) (\<lambda>v.
             sphere_loop icosphere center (Suc i) (vertices @ [v]))
      else Inr vertices)"
  by pat_completeness auto
termination
  by (relation "measure (\<lambda>(icosphere, center, i, vertices). VertexCount icosphere - i)") auto

declare sphere_loop.simps [simp del]

definition CreateSphere ::
  "('f \<Rightarrow> int \<Rightarrow> bool \<Rightarrow> 'f Icosphere) \<Rightarrow> ('f::plus) vec3 \<Rightarrow> 'f \<Rightarrow> int \<Rightarrow> 'f Material \<Rightarrow> bool
     \<Rightarrow> error + 'f Model"
where
  "CreateSphere Icosphere_new center radius subdivision material isProcedural =
     (let icosphere = Icosphere_new radius subdivision True
      in bind_error (sphere_loop icosphere center 0 []) (\<lambda>vertices.
           Inr \<lparr>m_vertices = vertices,
                m_indices = Indices icosphere,
                m_materials = [material],
                m_procedural = (if isProcedural then Some (Sphere center radius) else None)\<rparr>))"

subsection \<open>\<^verbatim>\<open>Model::LoadModel\<close> (lines 45-150)\<close>

text \<open>The types of the external parser \<^verbatim>\<open>tinyobj\<close>, with the members the code reads.
  \<^verbatim>\<open>objAttrib.vertices\<close> and \<^verbatim>\<open>mesh.indices\<close> carry a prefix, since the loop has
  locals of the same names.\<close>

record 'f attrib_t =
  attrib_vertices :: "'f list"
  attrib_normals :: "'f list"
  attrib_texcoords :: "'f list"

record index_t =
  vertex_index :: int
  normal_index :: int
  texcoord_index :: int

record mesh_t =
  mesh_indices :: "index_t list"
  material_ids :: "int list"

record shape_t =
  mesh :: mesh_t

record 'f material_t =
  name :: string
  diffuse :: "'f \<times> 'f \<times> 'f"

text \<open>The return value and the out-parameters of \<^verbatim>\<open>tinyobj::LoadObj\<close> for the file.
  What \<open>LoadModel\<close> writes to the console (the warning, the counts, the elapsed time)
  does not reach the model and is left out.\<close>

record 'f LoadObj =
  loaded :: bool
  objAttrib :: "'f attrib_t"
  objShapes :: "shape_t list"
  objMaterials :: "'f material_t list"
  warn :: string
  err :: string

text \<open>Lines 75-93.  \<open>gray\<close> is the literal \<^verbatim>\<open>0.7f\<close>.\<close>

definition convert_material :: "('f::one) material_t \<Rightarrow> 'f Material" where
  "convert_material material =
     (case diffuse material of (d0, d1, d2) \<Rightarrow> \<lparr>Diffuse = Vec4 d0 d1 d2 1\<rparr>)"

definition load_materials :: "'f \<Rightarrow> ('f::one) material_t list \<Rightarrow> 'f Material list" where
  "load_materials gray ms =
     (let materials = map convert_material ms
      in if materials = [] then materials @ [\<lparr>Diffuse = Vec4 gray gray gray 1\<rparr>]
         else materials)"

text \<open>The locals of the geometry loop (lines 96-99).\<close>

record 'f assembly =
  vertices :: "'f Vertex list"
  indices :: "32 word list"
  uniqueVertices :: "'f Vertex \<rightharpoonup> 32 word"
  faceId :: nat

text \<open>Lines 107-132: the vertex of one corner, for the value that \<^verbatim>\<open>faceId\<close> has
  when the corner is reached.\<close>

definition gather3 :: "'f list \<Rightarrow> int \<Rightarrow> error + 'f vec3" where
  "gather3 arr i =
     bind_error (at_int arr 3 i 0) (\<lambda>a.
     bind_error (at_int arr 3 i 1) (\<lambda>b.
     bind_error (at_int arr 3 i 2) (\<lambda>c. Inr (Vec3 a b c))))"

definition gather_texcoord :: "('f::{zero,one,minus}) list \<Rightarrow> int \<Rightarrow> error + 'f vec2" where
  "gather_texcoord arr i =
     (if arr \<noteq> []
      then bind_error (at_int arr 2 i 0) (\<lambda>u.
           bind_error (at_int arr 2 i 1) (\<lambda>v. Inr (Vec2 u (1 - v))))
      else Inr (Vec2 0 0))"

definition make_vertex ::
  "('f::{zero,one,minus}) attrib_t \<Rightarrow> mesh_t \<Rightarrow> nat \<Rightarrow> index_t \<Rightarrow> error + 'f Vertex"
where
  "make_vertex attrib msh fid index =
     bind_error (gather3 (attrib_vertices attrib) (vertex_index index)) (\<lambda>p.
     bind_error (gather3 (attrib_normals attrib) (normal_index index)) (\<lambda>n.
     bind_error (gather_texcoord (attrib_texcoords attrib) (texcoord_index index)) (\<lambda>t.
     bind_error (at (material_ids msh) (fid div 3)) (\<lambda>material_id.
       Inr \<lparr>Position = p, Normal = n, TexCoord = t,
            MaterialIndex = max 0 material_id\<rparr>))))"

text \<open>Lines 134-140.  \<^verbatim>\<open>count(vertex) == 0\<close> is a failed lookup;
  \<^verbatim>\<open>static_cast<uint32_t>(vertices.size())\<close> keeps the low 32 bits; reading
  \<^verbatim>\<open>uniqueVertices[vertex]\<close> inserts a value-initialised \<open>0\<close> for a missing key.\<close>

definition intern :: "'f assembly \<Rightarrow> 'f Vertex \<Rightarrow> 'f assembly" where
  "intern st vertex =
     (let st1 =
        (if uniqueVertices st vertex = None
         then st\<lparr>uniqueVertices :=
                   (uniqueVertices st)(vertex \<mapsto> word_of_nat (length (vertices st))),
                 vertices := vertices st @ [vertex]\<rparr>
         else st)
      in case uniqueVertices st1 vertex of
           None \<Rightarrow> st1\<lparr>uniqueVertices := (uniqueVertices st1)(vertex \<mapsto> 0),
                       indices := indices st1 @ [0]\<rparr>
         | Some i \<Rightarrow> st1\<lparr>indices := indices st1 @ [i]\<rparr>)"

text \<open>The inner loop over \<^verbatim>\<open>mesh.indices\<close> and the outer loop over \<^verbatim>\<open>objShapes\<close>;
  \<^verbatim>\<open>faceId++\<close> is part of the corner's step.\<close>

fun mesh_loop ::
  "('f::{zero,one,minus}) attrib_t \<Rightarrow> mesh_t \<Rightarrow> index_t list \<Rightarrow> 'f assembly
     \<Rightarrow> error + 'f assembly"
where
  "mesh_loop attrib msh [] st = Inr st"
| "mesh_loop attrib msh (index # rest) st =
     bind_error (make_vertex attrib msh (faceId st) index) (\<lambda>vertex.
       mesh_loop attrib msh rest (intern (st\<lparr>faceId := faceId st + 1\<rparr>) vertex))"

fun shapes_loop ::
  "('f::{zero,one,minus}) attrib_t \<Rightarrow> shape_t list \<Rightarrow> 'f assembly \<Rightarrow> error + 'f assembly"
where
  "shapes_loop attrib [] st = Inr st"
| "shapes_loop attrib (shape # rest) st =
     bind_error (mesh_loop attrib (mesh shape) (mesh_indices (mesh shape)) st)
       (shapes_loop attrib rest)"

definition LoadModel ::
  "'f \<Rightarrow> string \<Rightarrow> ('f::{zero,one,minus}) LoadObj \<Rightarrow> error + 'f Model"
where
  "LoadModel gray filename obj =
     (if \<not> loaded obj
      then Inl (RuntimeError
             (''failed to load model '' @ [CHR 0x27] @ filename @ [CHR 0x27] @ '':''
                @ [CHR 0x0A] @ err obj))
      else
        let materials = load_materials gray (objMaterials obj)
        in bind_error
             (shapes_loop (objAttrib obj) (objShapes obj)
                \<lparr>vertices = [], indices = [], uniqueVertices = Map.empty, faceId = 0\<rparr>)
             (\<lambda>st. Inr \<lparr>m_vertices = vertices st, m_indices = indices st,
                        m_materials = materials, m_procedural = None\<rparr>))"

subsection \<open>Notions used to state the properties of \<open>LoadModel\<close>\<close>

text \<open>The corners in the order in which the two nested loops visit them, each with the
  mesh of its shape.\<close>

definition corners :: "shape_t list \<Rightarrow> (mesh_t \<times> index_t) list" where
  "corners shapes =
     concat (map (\<lambda>shape. map (\<lambda>index. (mesh shape, index)) (mesh_indices (mesh shape)))
       shapes)"

text \<open>One corner's step on the locals once its vertex is built, and the two loops run as
  one loop over \<open>corners\<close>.\<close>

definition corner_step :: "'f assembly \<Rightarrow> 'f Vertex \<Rightarrow> 'f assembly" where
  "corner_step st vertex = intern (st\<lparr>faceId := faceId st + 1\<rparr>) vertex"

fun corners_loop ::
  "('f::{zero,one,minus}) attrib_t \<Rightarrow> (mesh_t \<times> index_t) list \<Rightarrow> 'f assembly
     \<Rightarrow> error + 'f assembly"
where
  "corners_loop attrib [] st = Inr st"
| "corners_loop attrib (c # rest) st =
     bind_error (make_vertex attrib (fst c) (faceId st) (snd c)) (\<lambda>vertex.
       corners_loop attrib rest (corner_step st vertex))"

text \<open>The state of the locals after the corners whose vertices are \<open>vs\<close>, in this
  order, have been visited.\<close>

definition welded :: "'f Vertex list \<Rightarrow> 'f assembly \<Rightarrow> bool" where
  "welded vs st \<longleftrightarrow>
     faceId st = length vs \<and>
     distinct (vertices st) \<and> set (vertices st) = set vs \<and>
     length (indices st) = length vs \<and>
     (\<forall>v. uniqueVertices st v = None \<longleftrightarrow> v \<notin> set vs) \<and>
     (\<forall>k < length vs. uniqueVertices st (vs ! k) = Some (indices st ! k)) \<and>
     (\<forall>k < length vs. vs ! k \<notin> set (take k vs) \<longrightarrow>
        indices st ! k = word_of_nat (card (set (take k vs))) \<and>
        card (set (take k vs)) < length (vertices st) \<and>
        vertices st ! card (set (take k vs)) = vs ! k) \<and>
     (\<forall>i \<in> set (indices st). unat i < length (vertices st)) \<and>
     vertices st = rev (remdups (rev vs))"

text \<open>Every array read of one corner is inside its array, for the face counter
  \<open>fid\<close>: three positions, three normals, two texture coordinates unless the array of
  texture coordinates is empty, and the material id at \<open>fid div 3\<close> in the corner's own
  mesh.  An index is an \<^verbatim>\<open>int\<close>, so the computed position must also stay below
  \<open>2^31\<close>.\<close>

definition corner_readable :: "'f attrib_t \<Rightarrow> mesh_t \<Rightarrow> nat \<Rightarrow> index_t \<Rightarrow> bool" where
  "corner_readable attrib msh fid index \<longleftrightarrow>
     0 \<le> vertex_index index \<and>
     3 * vertex_index index + 2 < int (length (attrib_vertices attrib)) \<and>
     3 * vertex_index index + 2 < 2 ^ 31 \<and>
     0 \<le> normal_index index \<and>
     3 * normal_index index + 2 < int (length (attrib_normals attrib)) \<and>
     3 * normal_index index + 2 < 2 ^ 31 \<and>
     (attrib_texcoords attrib \<noteq> [] \<longrightarrow>
        0 \<le> texcoord_index index \<and>
        2 * texcoord_index index + 1 < int (length (attrib_texcoords attrib)) \<and>
        2 * texcoord_index index + 1 < 2 ^ 31) \<and>
     fid div 3 < length (material_ids msh)"

subsection \<open>Concrete inputs\<close>

text \<open>Three materials and a model that holds only a material table.\<close>

definition red :: "int Material" where "red = \<lparr>Diffuse = Vec4 1 0 0 1\<rparr>"
definition green :: "int Material" where "green = \<lparr>Diffuse = Vec4 0 1 0 1\<rparr>"
definition blue :: "int Material" where "blue = \<lparr>Diffuse = Vec4 0 0 1 1\<rparr>"

definition model_of :: "int Material list \<Rightarrow> int Model" where
  "model_of ms = \<lparr>m_vertices = [], m_indices = [], m_materials = ms, m_procedural = None\<rparr>"

text \<open>A generator that emits two points, whatever it is asked for.\<close>

definition two_points :: "int \<Rightarrow> int \<Rightarrow> bool \<Rightarrow> int Icosphere" where
  "two_points radius subdivision smooth =
     \<lparr>VertexCount = 2,
      Vertices = [radius, 0, 0, 0, radius, 0],
      Normals = [1, 0, 0, 0, 1, 0],
      TexCoords = [0, 0, 1, 1],
      Indices = [0, 1, 0]\<rparr>"

text \<open>Integer 4x4 matrices by rows with their product with a vector, the translation by
  \<open>(1, 2, 3)\<close> and its inverse transpose.\<close>

fun dot4 :: "int vec4 \<Rightarrow> int vec4 \<Rightarrow> int" where
  "dot4 (Vec4 a b c d) (Vec4 x y z w) = a * x + b * y + c * z + d * w"

fun mat_vec :: "int vec4 vec4 \<Rightarrow> int vec4 \<Rightarrow> int vec4" where
  "mat_vec (Vec4 r0 r1 r2 r3) v = Vec4 (dot4 r0 v) (dot4 r1 v) (dot4 r2 v) (dot4 r3 v)"

definition shift :: "int vec4 vec4" where
  "shift = Vec4 (Vec4 1 0 0 1) (Vec4 0 1 0 2) (Vec4 0 0 1 3) (Vec4 0 0 0 1)"

definition shift_IT :: "int vec4 vec4" where
  "shift_IT = Vec4 (Vec4 1 0 0 0) (Vec4 0 1 0 0) (Vec4 0 0 1 0) (Vec4 (- 1) (- 2) (- 3) 1)"

definition two_vertices :: "int Model" where
  "two_vertices =
     \<lparr>m_vertices =
        [\<lparr>Position = Vec3 5 5 5, Normal = Vec3 0 0 1, TexCoord = Vec2 0 1, MaterialIndex = 0\<rparr>,
         \<lparr>Position = Vec3 0 1 0, Normal = Vec3 1 0 0, TexCoord = Vec2 1 0, MaterialIndex = 1\<rparr>],
      m_indices = [0, 1, 0], m_materials = [red, green], m_procedural = None\<rparr>"

text \<open>A parsed file with two shapes: a square of two triangles without a material, and
  one more triangle over the same points whose face has the material 1.\<close>

definition corner :: "int \<Rightarrow> int \<Rightarrow> int \<Rightarrow> index_t" where
  "corner v n t = \<lparr>vertex_index = v, normal_index = n, texcoord_index = t\<rparr>"

definition square_obj :: "int LoadObj" where
  "square_obj =
     \<lparr>loaded = True,
      objAttrib = \<lparr>attrib_vertices = [0, 0, 0, 1, 0, 0, 1, 1, 0, 0, 1, 0],
                   attrib_normals = [0, 0, 1],
                   attrib_texcoords = [0, 0, 1, 0, 1, 1, 0, 1]\<rparr>,
      objShapes =
        [\<lparr>mesh = \<lparr>mesh_indices = [corner 0 0 0, corner 1 0 1, corner 2 0 2,
                                   corner 0 0 0, corner 2 0 2, corner 3 0 3],
                   material_ids = [- 1, - 1]\<rparr>\<rparr>,
         \<lparr>mesh = \<lparr>mesh_indices = [corner 0 0 0, corner 2 0 2, corner 3 0 3],
                   material_ids = [0, 0, 1]\<rparr>\<rparr>],
      objMaterials = [\<lparr>name = ''a'', diffuse = (1, 0, 0)\<rparr>, \<lparr>name = ''b'', diffuse = (0, 1, 0)\<rparr>],
      warn = [], err = []\<rparr>"

definition vertex_of :: "int \<times> int \<times> int \<Rightarrow> int \<times> int \<Rightarrow> int \<Rightarrow> int Vertex" where
  "vertex_of p t i =
     (case (p, t) of ((a, b, c), (u, v)) \<Rightarrow>
        \<lparr>Position = Vec3 a b c, Normal = Vec3 0 0 1, TexCoord = Vec2 u v, MaterialIndex = i\<rparr>)"

definition square_model :: "int Model" where
  "square_model =
     \<lparr>m_vertices =
        [vertex_of (0, 0, 0) (0, 1) 0, vertex_of (1, 0, 0) (1, 1) 0,
         vertex_of (1, 1, 0) (1, 0) 0, vertex_of (0, 1, 0) (0, 0) 0,
         vertex_of (0, 0, 0) (0, 1) 1, vertex_of (1, 1, 0) (1, 0) 1,
         vertex_of (0, 1, 0) (0, 0) 1],
      m_indices = [0, 1, 2, 0, 2, 3, 4, 5, 6],
      m_materials = [red, green],
      m_procedural = None\<rparr>"

text \<open>A parsed file whose only shape has a single corner, and one whose only face names
  a material that the file does not have.\<close>

definition one_corner_obj :: "int LoadObj" where
  "one_corner_obj =
     \<lparr>loaded = True,
      objAttrib = \<lparr>attrib_vertices = [0, 0, 0], attrib_normals = [0, 0, 1],
                   attrib_texcoords = []\<rparr>,
      objShapes = [\<lparr>mesh = \<lparr>mesh_indices = [corner 0 0 0], material_ids = [0]\<rparr>\<rparr>],
      objMaterials = [], warn = [], err = []\<rparr>"

definition one_corner_model :: "int Model" where
  "one_corner_model =
     \<lparr>m_vertices = [vertex_of (0, 0, 0) (0, 0) 0], m_indices = [0],
      m_materials = [\<lparr>Diffuse = Vec4 7 7 7 1\<rparr>], m_procedural = None\<rparr>"

definition stray_material_obj :: "int LoadObj" where
  "stray_material_obj =
     \<lparr>loaded = True,
      objAttrib = \<lparr>attrib_vertices = [0, 0, 0, 1, 0, 0, 0, 1, 0], attrib_normals = [0, 0, 1],
                   attrib_texcoords = []\<rparr>,
      objShapes = [\<lparr>mesh = \<lparr>mesh_indices = [corner 0 0 0, corner 1 0 0, corner 2 0 0],
                             material_ids = [5]\<rparr>\<rparr>],
      objMaterials = [], warn = [], err = []\<rparr>"

definition stray_material_model :: "int Model" where
  "stray_material_model =
     \<lparr>m_vertices = [vertex_of (0, 0, 0) (0, 0) 5, vertex_of (1, 0, 0) (0, 0) 5,
                    vertex_of (0, 1, 0) (0, 0) 5],
      m_indices = [0, 1, 2],
      m_materials = [\<lparr>Diffuse = Vec4 7 7 7 1\<rparr>], m_procedural = None\<rparr>"

text \<open>Parsed files with one material id per triangle: a square of two triangles in one
  shape, the second with material 1; a triangle without texture coordinates and
  materials; two shapes of one triangle each; and a triangle whose last corner has no
  texture coordinate although the file has some.\<close>

definition quad_obj :: "int LoadObj" where
  "quad_obj =
     \<lparr>loaded = True,
      objAttrib = \<lparr>attrib_vertices = [0, 0, 0, 1, 0, 0, 1, 1, 0, 0, 1, 0],
                   attrib_normals = [0, 0, 1],
                   attrib_texcoords = [0, 0, 1, 0, 1, 1, 0, 1]\<rparr>,
      objShapes =
        [\<lparr>mesh = \<lparr>mesh_indices = [corner 0 0 0, corner 1 0 1, corner 2 0 2,
                                   corner 0 0 0, corner 2 0 2, corner 3 0 3],
                   material_ids = [- 1, 1]\<rparr>\<rparr>],
      objMaterials = [\<lparr>name = ''a'', diffuse = (1, 0, 0)\<rparr>, \<lparr>name = ''b'', diffuse = (0, 1, 0)\<rparr>],
      warn = [], err = []\<rparr>"

definition quad_model :: "int Model" where
  "quad_model =
     \<lparr>m_vertices =
        [vertex_of (0, 0, 0) (0, 1) 0, vertex_of (1, 0, 0) (1, 1) 0,
         vertex_of (1, 1, 0) (1, 0) 0, vertex_of (0, 0, 0) (0, 1) 1,
         vertex_of (1, 1, 0) (1, 0) 1, vertex_of (0, 1, 0) (0, 0) 1],
      m_indices = [0, 1, 2, 3, 4, 5],
      m_materials = [red, green],
      m_procedural = None\<rparr>"

definition plain_triangle_obj :: "int LoadObj" where
  "plain_triangle_obj =
     \<lparr>loaded = True,
      objAttrib = \<lparr>attrib_vertices = [0, 0, 0, 1, 0, 0, 0, 1, 0], attrib_normals = [0, 0, 1],
                   attrib_texcoords = []\<rparr>,
      objShapes = [\<lparr>mesh = \<lparr>mesh_indices = [corner 0 0 (- 1), corner 1 0 (- 1),
                                              corner 2 0 (- 1)],
                             material_ids = [- 1]\<rparr>\<rparr>],
      objMaterials = [], warn = [], err = []\<rparr>"

definition plain_triangle_model :: "int Model" where
  "plain_triangle_model =
     \<lparr>m_vertices = [vertex_of (0, 0, 0) (0, 0) 0, vertex_of (1, 0, 0) (0, 0) 0,
                    vertex_of (0, 1, 0) (0, 0) 0],
      m_indices = [0, 1, 2],
      m_materials = [\<lparr>Diffuse = Vec4 7 7 7 1\<rparr>], m_procedural = None\<rparr>"


definition missing_texcoord_obj :: "int LoadObj" where
  "missing_texcoord_obj =
     \<lparr>loaded = True,
      objAttrib = \<lparr>attrib_vertices = [0, 0, 0, 1, 0, 0, 0, 1, 0], attrib_normals = [0, 0, 1],
                   attrib_texcoords = [0, 0, 1, 0]\<rparr>,
      objShapes = [\<lparr>mesh = \<lparr>mesh_indices = [corner 0 0 0, corner 1 0 1, corner 2 0 (- 1)],
                             material_ids = [- 1]\<rparr>\<rparr>],
      objMaterials = [], warn = [], err = []\<rparr>"

text \<open>A parsed file with one shape of \<open>2^32 + 2\<close> corners, no two of which have the same
  position and normal: corner \<open>k\<close> takes point \<open>k div 65536\<close> and normal
  \<open>k mod 65536\<close>.  \<open>big_vertex k\<close> is the vertex of corner \<open>k\<close>.\<close>

definition big_n :: nat where "big_n = 4294967298"

definition big_corner :: "nat \<Rightarrow> index_t" where
  "big_corner k = corner (int (k div 65536)) (int (k mod 65536)) 0"

definition big_mesh :: mesh_t where
  "big_mesh = \<lparr>mesh_indices = map big_corner [0..<big_n],
               material_ids = replicate 1431655766 0\<rparr>"

definition big_obj :: "int LoadObj" where
  "big_obj =
     \<lparr>loaded = True,
      objAttrib = \<lparr>attrib_vertices = map int [0..<196611],
                   attrib_normals = map int [0..<196608],
                   attrib_texcoords = []\<rparr>,
      objShapes = [\<lparr>mesh = big_mesh\<rparr>],
      objMaterials = [], warn = [], err = []\<rparr>"

definition big_vertex :: "nat \<Rightarrow> int Vertex" where
  "big_vertex k =
     \<lparr>Position = Vec3 (3 * int (k div 65536)) (3 * int (k div 65536) + 1)
                   (3 * int (k div 65536) + 2),
      Normal = Vec3 (3 * int (k mod 65536)) (3 * int (k mod 65536) + 1)
                 (3 * int (k mod 65536) + 2),
      TexCoord = Vec2 0 0, MaterialIndex = 0\<rparr>"

section \<open>Properties\<close>

subsection \<open>Results of fallible steps\<close>

lemma bind_error_Inr:
  "bind_error r k = Inr y \<longleftrightarrow> (\<exists>a. r = Inr a \<and> k a = Inr y)"
  by (cases r) (simp_all add: bind_error_def)

lemma at_Inr: "at v n = Inr a \<longleftrightarrow> n < length v \<and> a = v ! n"
  by (auto simp: at_def)

lemma bind_error_weak_cong: "r = r' \<Longrightarrow> bind_error r k = bind_error r' k"
  by simp

lemma bind_error_simps:
  "bind_error (Inr a) k = k a" "bind_error (Inl e) k = Inl e"
  by (simp_all add: bind_error_def)

subsection \<open>SetMaterial\<close>

text \<open>
  \<^bold>\<open>C6\<close> (SetMaterial guard).  On a model whose material table holds more than one
  material, \<open>SetMaterial\<close> ends with the \<^verbatim>\<open>std::runtime_error\<close> and leaves the model
  as it was; on a model with exactly one material it returns normally and the table
  becomes the supplied material alone, everything else unchanged.
\<close>

theorem SetMaterial_guard:
  "(1 < length (m_materials m) \<longrightarrow>
      SetMaterial material m =
        (Inl (RuntimeError ''cannot change material on a multi-material model''), m)) \<and>
   (length (m_materials m) = 1 \<longrightarrow>
      SetMaterial material m = (Inr (), m\<lparr>m_materials := [material]\<rparr>))"
  by (auto simp: SetMaterial_def length_Suc_conv)

theorem SetMaterial_guard_witness:
  "SetMaterial green (model_of [red, blue]) =
     (Inl (RuntimeError ''cannot change material on a multi-material model''),
      model_of [red, blue]) \<and>
   SetMaterial green (model_of [red]) = (Inr (), model_of [green])"
  using SetMaterial_guard [of "model_of [red, blue]" green]
    SetMaterial_guard [of "model_of [red]" green]
  by (simp add: model_of_def)

subsection \<open>Transform\<close>

lemma transform_loop_eq:
  "transform_loop mul T TIT vs i =
     take i vs @
     map (\<lambda>v. v\<lparr>Position := vec3_of (mul T (vec4_of (Position v) 1)),
               Normal := vec3_of (mul TIT (vec4_of (Normal v) 0))\<rparr>) (drop i vs)"
proof (induction mul T TIT vs i rule: transform_loop.induct)
  case (1 mul T TIT vs i)
  show ?case
  proof (cases "i < length vs")
    case True
    let ?x = "(vs ! i)\<lparr>Position := vec3_of (mul T (vec4_of (Position (vs ! i)) 1)),
               Normal := vec3_of (mul TIT (vec4_of (Normal (vs ! i)) 0))\<rparr>"
    have t: "take (Suc i) (vs[i := ?x]) = take i vs @ [?x]"
      using True by (simp add: take_Suc_conv_app_nth)
    have d: "drop i vs = vs ! i # drop (Suc i) vs"
      using True by (simp add: Cons_nth_drop_Suc)
    have "transform_loop mul T TIT vs i = transform_loop mul T TIT (vs[i := ?x]) (Suc i)"
      using True by (subst transform_loop.simps) simp
    also have "\<dots> = take i vs @ [?x] @ map (\<lambda>v. v\<lparr>Position := vec3_of (mul T (vec4_of (Position v) 1)),
               Normal := vec3_of (mul TIT (vec4_of (Normal v) 0))\<rparr>) (drop (Suc i) vs)"
      using "1.IH"[OF True] t by simp
    finally show ?thesis by (simp add: d)
  next
    case False
    then show ?thesis by (subst transform_loop.simps) simp
  qed
qed

text \<open>
  \<^bold>\<open>C8\<close> (Transform semantics).  \<open>Transform\<close> keeps the number of vertices, and the
  vertex at every position \<open>i\<close> gets the position \<open>M \<cdot> (position, 1)\<close> and the normal
  \<open>inverseTranspose M \<cdot> (normal, 0)\<close>, each cut back to three components, computed from
  the vertex that was at \<open>i\<close> before the call.
\<close>

theorem Transform_semantics:
  "length (m_vertices (Transform mul inverseTranspose M m)) = length (m_vertices m) \<and>
   (\<forall>i < length (m_vertices m).
      Position (m_vertices (Transform mul inverseTranspose M m) ! i) =
        vec3_of (mul M (vec4_of (Position (m_vertices m ! i)) 1)) \<and>
      Normal (m_vertices (Transform mul inverseTranspose M m) ! i) =
        vec3_of (mul (inverseTranspose M) (vec4_of (Normal (m_vertices m ! i)) 0)))"
  by (simp add: Transform_def transform_loop_eq)

theorem Transform_semantics_witness:
  "Position (m_vertices (Transform mat_vec (\<lambda>M. shift_IT) shift two_vertices) ! 0) = Vec3 6 7 8 \<and>
   Normal (m_vertices (Transform mat_vec (\<lambda>M. shift_IT) shift two_vertices) ! 0) = Vec3 0 0 1 \<and>
   length (m_vertices (Transform mat_vec (\<lambda>M. shift_IT) shift two_vertices)) = 2"
proof -
  have l: "0 < length (m_vertices two_vertices)" by (simp add: two_vertices_def)
  from Transform_semantics [of mat_vec "\<lambda>M. shift_IT" shift two_vertices] l
  have "Position (m_vertices (Transform mat_vec (\<lambda>M. shift_IT) shift two_vertices) ! 0) =
        vec3_of (mat_vec shift (vec4_of (Position (m_vertices two_vertices ! 0)) 1)) \<and>
     Normal (m_vertices (Transform mat_vec (\<lambda>M. shift_IT) shift two_vertices) ! 0) =
        vec3_of (mat_vec shift_IT (vec4_of (Normal (m_vertices two_vertices ! 0)) 0)) \<and>
     length (m_vertices (Transform mat_vec (\<lambda>M. shift_IT) shift two_vertices)) =
       length (m_vertices two_vertices)"
    by blast
  then show ?thesis by (simp add: two_vertices_def shift_def shift_IT_def)
qed

text \<open>
  \<^bold>\<open>C9\<close> (Transform frame).  \<open>Transform\<close> leaves the index buffer, the material table
  and the analytic-shape descriptor unchanged, and, vertex by vertex, the texture
  coordinate and the material index.
\<close>

theorem Transform_frame:
  "m_indices (Transform mul inverseTranspose M m) = m_indices m \<and>
   m_materials (Transform mul inverseTranspose M m) = m_materials m \<and>
   m_procedural (Transform mul inverseTranspose M m) = m_procedural m \<and>
   map TexCoord (m_vertices (Transform mul inverseTranspose M m)) = map TexCoord (m_vertices m) \<and>
   map MaterialIndex (m_vertices (Transform mul inverseTranspose M m)) =
     map MaterialIndex (m_vertices m)"
  by (simp add: Transform_def transform_loop_eq comp_def)

theorem Transform_frame_witness:
  "m_indices (Transform mat_vec (\<lambda>M. shift_IT) shift two_vertices) = [0, 1, 0] \<and>
   m_materials (Transform mat_vec (\<lambda>M. shift_IT) shift two_vertices) = [red, green] \<and>
   m_procedural (Transform mat_vec (\<lambda>M. shift_IT) shift two_vertices) = None \<and>
   map TexCoord (m_vertices (Transform mat_vec (\<lambda>M. shift_IT) shift two_vertices)) =
     [Vec2 0 1, Vec2 1 0] \<and>
   map MaterialIndex (m_vertices (Transform mat_vec (\<lambda>M. shift_IT) shift two_vertices)) = [0, 1]"
  using Transform_frame [of mat_vec "\<lambda>M. shift_IT" shift two_vertices]
  by (simp add: two_vertices_def)

subsection \<open>CreateSphere\<close>

lemma sphere_loop_Inr:
  "sphere_loop ico c i acc = Inr vs \<Longrightarrow>
   length vs = length acc + (VertexCount ico - i) \<and> take (length acc) vs = acc \<and>
   (\<forall>j. i \<le> j \<and> j < VertexCount ico \<longrightarrow>
      sphere_vertex ico c j = Inr (vs ! (length acc + (j - i))))"
proof (induction ico c i acc rule: sphere_loop.induct)
  case (1 ico c i acc)
  show ?case
  proof (cases "i < VertexCount ico")
    case True
    from "1.prems" True obtain v where v: "sphere_vertex ico c i = Inr v"
      and r: "sphere_loop ico c (Suc i) (acc @ [v]) = Inr vs"
      by (subst (asm) sphere_loop.simps) (auto simp: bind_error_Inr)
    from "1.IH"[OF True r] have
      l: "length vs = length (acc @ [v]) + (VertexCount ico - Suc i)" and
      t: "take (length (acc @ [v])) vs = acc @ [v]" and
      n: "\<forall>j. Suc i \<le> j \<and> j < VertexCount ico \<longrightarrow>
            sphere_vertex ico c j = Inr (vs ! (length (acc @ [v]) + (j - Suc i)))"
      by blast+
    have t1: "take (length acc) vs = acc"
    proof -
      have "take (length acc) (take (length (acc @ [v])) vs) = take (length acc) (acc @ [v])"
        by (simp only: t)
      then show ?thesis by simp
    qed
    have vi: "vs ! length acc = v"
    proof -
      have "take (length (acc @ [v])) vs ! length acc = (acc @ [v]) ! length acc"
        by (simp only: t)
      then show ?thesis by simp
    qed
    have "sphere_vertex ico c j = Inr (vs ! (length acc + (j - i)))"
      if "i \<le> j" "j < VertexCount ico" for j
    proof (cases "j = i")
      case True
      then show ?thesis using v vi by simp
    next
      case False
      with that have "Suc i \<le> j" by simp
      have eq: "length (acc @ [v]) + (j - Suc i) = length acc + (j - i)"
        using \<open>Suc i \<le> j\<close> by simp
      from n that \<open>Suc i \<le> j\<close>
      have "sphere_vertex ico c j = Inr (vs ! (length (acc @ [v]) + (j - Suc i)))"
        by blast
      then show ?thesis by (simp only: eq)
    qed
    with l t1 True show ?thesis by auto
  next
    case False
    with "1.prems" show ?thesis by (subst (asm) sphere_loop.simps) auto
  qed
qed

lemma sphere_loop_total:
  "\<forall>j. i \<le> j \<and> j < VertexCount ico \<longrightarrow> (\<exists>v. sphere_vertex ico c j = Inr v) \<Longrightarrow>
   \<exists>vs. sphere_loop ico c i acc = Inr vs"
proof (induction ico c i acc rule: sphere_loop.induct)
  case (1 ico c i acc)
  show ?case
  proof (cases "i < VertexCount ico")
    case True
    with "1.prems" obtain v where v: "sphere_vertex ico c i = Inr v" by auto
    have "\<exists>vs. sphere_loop ico c (Suc i) (acc @ [v]) = Inr vs"
      using "1.IH"[OF True, of v] "1.prems" by auto
    then show ?thesis using True v by (subst sphere_loop.simps) (simp add: bind_error_def)
  next
    case False
    then show ?thesis by (subst sphere_loop.simps) simp
  qed
qed

lemma sphere_vertex_Inr:
  "sphere_vertex ico c i = Inr v \<longleftrightarrow>
     i * 3 + 2 < length (Vertices ico) \<and> i * 3 + 2 < length (Normals ico) \<and>
     i * 2 + 1 < length (TexCoords ico) \<and>
     v = \<lparr>Position = vec3_add (Vec3 (Vertices ico ! (i * 3)) (Vertices ico ! (i * 3 + 1))
                         (Vertices ico ! (i * 3 + 2))) c,
          Normal = Vec3 (Normals ico ! (i * 3)) (Normals ico ! (i * 3 + 1))
                     (Normals ico ! (i * 3 + 2)),
          TexCoord = Vec2 (TexCoords ico ! (i * 2)) (TexCoords ico ! (i * 2 + 1)),
          MaterialIndex = 0\<rparr>"
  by (auto simp: sphere_vertex_def bind_error_Inr at_Inr)

lemma two_points_sphere:
  "CreateSphere two_points (Vec3 10 20 30) 5 0 red True =
     Inr \<lparr>m_vertices =
            [\<lparr>Position = Vec3 15 20 30, Normal = Vec3 1 0 0, TexCoord = Vec2 0 0,
              MaterialIndex = 0\<rparr>,
             \<lparr>Position = Vec3 10 25 30, Normal = Vec3 0 1 0, TexCoord = Vec2 1 1,
              MaterialIndex = 0\<rparr>],
          m_indices = [0, 1, 0], m_materials = [red],
          m_procedural = Some (Sphere (Vec3 10 20 30) 5)\<rparr>"
  by (simp add: CreateSphere_def two_points_def sphere_loop.simps sphere_vertex_def
      bind_error_def at_def)

text \<open>
  \<^bold>\<open>C7\<close> (CreateSphere contract).  Let \<open>ico\<close> be what the generator returns.  When its
  arrays hold three positions, three normals and two texture coordinates per point,
  \<open>CreateSphere\<close> produces a model.  Every model it produces has exactly
  \<open>VertexCount ico\<close> vertices; vertex \<open>i\<close> has the generated position plus the center,
  the generated normal and the material index 0; the material table is the supplied
  material alone; the index buffer is the generator's; and the descriptor
  \<open>Sphere center radius\<close> is present exactly when \<open>isProcedural\<close> is set.
\<close>

theorem CreateSphere_contract:
  assumes "ico = Icosphere_new radius subdivision True"
  shows
  "(VertexCount ico * 3 \<le> length (Vertices ico) \<and>
    VertexCount ico * 3 \<le> length (Normals ico) \<and>
    VertexCount ico * 2 \<le> length (TexCoords ico) \<longrightarrow>
      (\<exists>m. CreateSphere Icosphere_new center radius subdivision material isProcedural = Inr m)) \<and>
   (\<forall>m. CreateSphere Icosphere_new center radius subdivision material isProcedural = Inr m \<longrightarrow>
      length (m_vertices m) = VertexCount ico \<and>
      (\<forall>i < VertexCount ico.
         Position (m_vertices m ! i) =
           vec3_add (Vec3 (Vertices ico ! (i * 3 + 0)) (Vertices ico ! (i * 3 + 1))
                      (Vertices ico ! (i * 3 + 2))) center \<and>
         Normal (m_vertices m ! i) =
           Vec3 (Normals ico ! (i * 3 + 0)) (Normals ico ! (i * 3 + 1))
             (Normals ico ! (i * 3 + 2)) \<and>
         MaterialIndex (m_vertices m ! i) = 0) \<and>
      m_materials m = [material] \<and>
      m_indices m = Indices ico \<and>
      m_procedural m = (if isProcedural then Some (Sphere center radius) else None) \<and>
      (m_procedural m \<noteq> None \<longleftrightarrow> isProcedural))"
proof (intro conjI impI allI)
  assume len: "VertexCount ico * 3 \<le> length (Vertices ico) \<and>
    VertexCount ico * 3 \<le> length (Normals ico) \<and>
    VertexCount ico * 2 \<le> length (TexCoords ico)"
  have "\<exists>v. sphere_vertex ico center j = Inr v" if "j < VertexCount ico" for j
  proof -
    from that have "j * 3 + 3 \<le> VertexCount ico * 3" "j * 2 + 2 \<le> VertexCount ico * 2"
      by simp_all
    with len show ?thesis by (simp add: sphere_vertex_Inr)
  qed
  then obtain vs where "sphere_loop ico center 0 [] = Inr vs"
    using sphere_loop_total [of 0 ico center "[]"] by blast
  then show "\<exists>m. CreateSphere Icosphere_new center radius subdivision material isProcedural = Inr m"
    by (simp add: CreateSphere_def assms [symmetric] bind_error_def)
next
  fix m
  assume "CreateSphere Icosphere_new center radius subdivision material isProcedural = Inr m"
  then obtain vs where vs: "sphere_loop ico center 0 [] = Inr vs"
    and m: "m = \<lparr>m_vertices = vs, m_indices = Indices ico, m_materials = [material],
                 m_procedural = (if isProcedural then Some (Sphere center radius) else None)\<rparr>"
    by (auto simp: CreateSphere_def assms [symmetric] bind_error_Inr)
  from sphere_loop_Inr [OF vs]
  have l: "length vs = VertexCount ico"
    and n: "\<And>j. j < VertexCount ico \<Longrightarrow> sphere_vertex ico center j = Inr (vs ! j)"
    by simp_all
  show "length (m_vertices m) = VertexCount ico" by (simp add: m l)
  show "m_materials m = [material]" by (simp add: m)
  show "m_indices m = Indices ico" by (simp add: m)
  show "m_procedural m = (if isProcedural then Some (Sphere center radius) else None)"
    by (simp add: m)
  show "(m_procedural m \<noteq> None) = isProcedural" by (simp add: m)
  fix i assume i: "i < VertexCount ico"
  from n [OF i] have v: "vs ! i = \<lparr>Position = vec3_add (Vec3 (Vertices ico ! (i * 3)) (Vertices ico ! (i * 3 + 1))
                         (Vertices ico ! (i * 3 + 2))) center,
          Normal = Vec3 (Normals ico ! (i * 3)) (Normals ico ! (i * 3 + 1))
                     (Normals ico ! (i * 3 + 2)),
          TexCoord = Vec2 (TexCoords ico ! (i * 2)) (TexCoords ico ! (i * 2 + 1)),
          MaterialIndex = 0\<rparr>"
    by (simp add: sphere_vertex_Inr)
  show "Position (m_vertices m ! i) =
           vec3_add (Vec3 (Vertices ico ! (i * 3 + 0)) (Vertices ico ! (i * 3 + 1))
                      (Vertices ico ! (i * 3 + 2))) center"
    by (simp add: m v)
  show "Normal (m_vertices m ! i) =
           Vec3 (Normals ico ! (i * 3 + 0)) (Normals ico ! (i * 3 + 1))
             (Normals ico ! (i * 3 + 2))"
    by (simp add: m v)
  show "MaterialIndex (m_vertices m ! i) = 0" by (simp add: m v)
qed

theorem CreateSphere_contract_witness:
  "\<exists>m. CreateSphere two_points (Vec3 10 20 30) 5 0 red True = Inr m \<and>
       length (m_vertices m) = 2 \<and>
       Position (m_vertices m ! 1) = Vec3 10 25 30 \<and>
       MaterialIndex (m_vertices m ! 1) = 0 \<and>
       m_materials m = [red] \<and> m_indices m = [0, 1, 0] \<and>
       m_procedural m = Some (Sphere (Vec3 10 20 30) 5)"
  using CreateSphere_contract [of "two_points 5 0 True" two_points 5 0 "Vec3 10 20 30" red True]
  by (simp add: two_points_sphere)

text \<open>
  \<^bold>\<open>C10\<close> (no V-flip in CreateSphere).  In a model that \<open>CreateSphere\<close> produces, the
  texture coordinate of vertex \<open>i\<close> is the generator's pair \<open>(TexCoords[2i],
  TexCoords[2i + 1])\<close> as it is; the second component is not replaced by \<open>1 - v\<close>.
\<close>

theorem CreateSphere_texcoord_verbatim:
  assumes "CreateSphere Icosphere_new center radius subdivision material isProcedural = Inr m"
    and "ico = Icosphere_new radius subdivision True"
    and "i < VertexCount ico"
  shows "TexCoord (m_vertices m ! i) =
           Vec2 (TexCoords ico ! (i * 2 + 0)) (TexCoords ico ! (i * 2 + 1))"
proof -
  from assms(1) obtain vs where vs: "sphere_loop ico center 0 [] = Inr vs"
    and m: "m_vertices m = vs"
    by (auto simp: CreateSphere_def assms(2) [symmetric] bind_error_Inr)
  from sphere_loop_Inr [OF vs] assms(3)
  have "sphere_vertex ico center i = Inr (vs ! i)" by simp
  then show ?thesis by (simp add: sphere_vertex_Inr m)
qed

theorem CreateSphere_texcoord_verbatim_witness:
  "TexCoord (m_vertices (projr (CreateSphere two_points (Vec3 10 20 30) 5 0 red True)) ! 1) = Vec2 1 1"
  using CreateSphere_texcoord_verbatim [OF two_points_sphere, of "two_points 5 0 True" 1]
  by (simp add: two_points_sphere two_points_def)

subsection \<open>The loops of LoadModel as one loop over the corners\<close>

lemma intern_new:
  "uniqueVertices st v = None \<Longrightarrow>
   intern st v =
     st\<lparr>uniqueVertices := (uniqueVertices st)(v \<mapsto> word_of_nat (length (vertices st))),
        vertices := vertices st @ [v],
        indices := indices st @ [word_of_nat (length (vertices st))]\<rparr>"
  by (simp add: intern_def)

lemma intern_old:
  "uniqueVertices st v = Some i \<Longrightarrow> intern st v = st\<lparr>indices := indices st @ [i]\<rparr>"
  by (simp add: intern_def)

lemma corners_loop_append:
  "corners_loop attrib (xs @ ys) st =
     bind_error (corners_loop attrib xs st) (corners_loop attrib ys)"
  by (induction xs arbitrary: st) (simp_all add: bind_error_def split: sum.splits)

lemma mesh_loop_corners:
  "mesh_loop attrib msh is st = corners_loop attrib (map (\<lambda>index. (msh, index)) is) st"
  by (induction "is" arbitrary: st) (simp_all add: corner_step_def)

lemma shapes_loop_corners:
  "shapes_loop attrib shapes st = corners_loop attrib (corners shapes) st"
proof (induction shapes arbitrary: st)
  case Nil
  show ?case by (simp add: corners_def)
next
  case (Cons shape rest)
  have "corners (shape # rest) =
          map (\<lambda>index. (mesh shape, index)) (mesh_indices (mesh shape)) @ corners rest"
    by (simp add: corners_def)
  then show ?case
    by (simp add: corners_loop_append mesh_loop_corners Cons.IH [abs_def])
qed

lemma faceId_corner_step: "faceId (corner_step st v) = Suc (faceId st)"
  by (simp add: corner_step_def intern_def Let_def split: option.splits)

lemma faceId_foldl: "faceId (foldl corner_step st vs) = faceId st + length vs"
  by (induction vs arbitrary: st) (simp_all add: faceId_corner_step)

lemma corners_loop_Inr:
  "corners_loop attrib cs st = Inr st' \<longleftrightarrow>
     (\<exists>vs. length vs = length cs \<and>
        (\<forall>k < length cs.
           make_vertex attrib (fst (cs ! k)) (faceId st + k) (snd (cs ! k)) = Inr (vs ! k)) \<and>
        st' = foldl corner_step st vs)"
proof (induction cs arbitrary: st st')
  case Nil
  show ?case by auto
next
  case (Cons c cs)
  show ?case
  proof
    assume "corners_loop attrib (c # cs) st = Inr st'"
    then obtain v where v: "make_vertex attrib (fst c) (faceId st) (snd c) = Inr v"
      and r: "corners_loop attrib cs (corner_step st v) = Inr st'"
      by (auto simp: bind_error_Inr)
    from r Cons.IH [of "corner_step st v" st'] obtain vs where vs: "length vs = length cs"
      "\<forall>k < length cs. make_vertex attrib (fst (cs ! k)) (faceId (corner_step st v) + k)
           (snd (cs ! k)) = Inr (vs ! k)"
      "st' = foldl corner_step (corner_step st v) vs"
      by blast
    have "\<forall>k < length (c # cs).
           make_vertex attrib (fst ((c # cs) ! k)) (faceId st + k) (snd ((c # cs) ! k)) =
             Inr ((v # vs) ! k)"
    proof (intro allI impI)
      fix k assume "k < length (c # cs)"
      then show "make_vertex attrib (fst ((c # cs) ! k)) (faceId st + k) (snd ((c # cs) ! k)) =
             Inr ((v # vs) ! k)"
        using v vs(2) by (cases k) (simp_all add: faceId_corner_step)
    qed
    with vs(1,3) show "\<exists>vs. length vs = length (c # cs) \<and>
        (\<forall>k < length (c # cs).
           make_vertex attrib (fst ((c # cs) ! k)) (faceId st + k) (snd ((c # cs) ! k)) =
             Inr (vs ! k)) \<and>
        st' = foldl corner_step st vs"
      by (intro exI [of _ "v # vs"]) simp
  next
    assume "\<exists>vs. length vs = length (c # cs) \<and>
        (\<forall>k < length (c # cs).
           make_vertex attrib (fst ((c # cs) ! k)) (faceId st + k) (snd ((c # cs) ! k)) =
             Inr (vs ! k)) \<and>
        st' = foldl corner_step st vs"
    then obtain vs where l: "length vs = length (c # cs)"
      and mk: "\<forall>k < length (c # cs).
           make_vertex attrib (fst ((c # cs) ! k)) (faceId st + k) (snd ((c # cs) ! k)) =
             Inr (vs ! k)"
      and st': "st' = foldl corner_step st vs"
      by blast
    from l obtain v ws where vs: "vs = v # ws" and lw: "length ws = length cs"
      by (cases vs) auto
    from mk have v: "make_vertex attrib (fst c) (faceId st) (snd c) = Inr v"
      by (auto simp: vs dest: spec [of _ 0])
    have "\<forall>k < length cs. make_vertex attrib (fst (cs ! k)) (faceId (corner_step st v) + k)
           (snd (cs ! k)) = Inr (ws ! k)"
    proof (intro allI impI)
      fix k assume "k < length cs"
      with mk have "make_vertex attrib (fst ((c # cs) ! Suc k)) (faceId st + Suc k)
          (snd ((c # cs) ! Suc k)) = Inr (vs ! Suc k)"
        by (auto dest: spec [of _ "Suc k"])
      then show "make_vertex attrib (fst (cs ! k)) (faceId (corner_step st v) + k)
           (snd (cs ! k)) = Inr (ws ! k)"
        by (simp add: vs faceId_corner_step)
    qed
    with lw have "corners_loop attrib cs (corner_step st v) = Inr (foldl corner_step (corner_step st v) ws)"
      using Cons.IH [of "corner_step st v" "foldl corner_step (corner_step st v) ws"] by blast
    with v show "corners_loop attrib (c # cs) st = Inr st'"
      by (simp add: bind_error_def st' vs)
  qed
qed

subsection \<open>The invariant of the vertex pool\<close>

lemma unat_word_of_nat_le: "unat (word_of_nat n :: 32 word) \<le> n"
  by (simp add: unat_of_nat)

lemma welded_init:
  "welded [] \<lparr>vertices = [], indices = [], uniqueVertices = Map.empty, faceId = 0\<rparr>"
  by (simp add: welded_def)

lemma welded_new:
  assumes w: "welded vs st" and new: "v \<notin> set vs"
  shows "welded (vs @ [v]) (corner_step st v)"
proof -
  let ?V = "vertices st" and ?I = "indices st" and ?U = "uniqueVertices st"
  let ?w = "word_of_nat (length ?V) :: 32 word"
  from w have f: "faceId st = length vs" and d: "distinct ?V" and s: "set ?V = set vs"
    and li: "length ?I = length vs"
    and u: "\<And>x. ?U x = None \<longleftrightarrow> x \<notin> set vs"
    and r: "\<And>k. k < length vs \<Longrightarrow> ?U (vs ! k) = Some (?I ! k)"
    and fo: "\<And>k. k < length vs \<Longrightarrow> vs ! k \<notin> set (take k vs) \<Longrightarrow>
        ?I ! k = word_of_nat (card (set (take k vs))) \<and>
        card (set (take k vs)) < length ?V \<and> ?V ! card (set (take k vs)) = vs ! k"
    and val: "\<And>i. i \<in> set ?I \<Longrightarrow> unat i < length ?V"
    and fst_occ: "?V = rev (remdups (rev vs))"
    unfolding welded_def by blast+
  from new u have "?U v = None" by simp
  then have st': "corner_step st v =
     st\<lparr>faceId := faceId st + 1, uniqueVertices := ?U(v \<mapsto> ?w), vertices := ?V @ [v],
        indices := ?I @ [?w]\<rparr>"
    by (simp add: corner_step_def intern_new)
  have cardV: "card (set vs) = length ?V"
    using d s by (metis distinct_card)
  have 1: "faceId (corner_step st v) = length (vs @ [v])" by (simp add: st' f)
  have 2: "distinct (vertices (corner_step st v))" using d new s by (simp add: st')
  have 3: "set (vertices (corner_step st v)) = set (vs @ [v])" using s by (simp add: st')
  have 4: "length (indices (corner_step st v)) = length (vs @ [v])" by (simp add: st' li)
  have 5: "uniqueVertices (corner_step st v) x = None \<longleftrightarrow> x \<notin> set (vs @ [v])" for x
    using u by (simp add: st')
  have 6: "uniqueVertices (corner_step st v) ((vs @ [v]) ! k) =
             Some (indices (corner_step st v) ! k)" if "k < length (vs @ [v])" for k
  proof (cases "k < length vs")
    case True
    then have "vs ! k \<noteq> v" using new by (metis nth_mem)
    with True r [OF True] show ?thesis by (simp add: st' nth_append li)
  next
    case False
    with that have "k = length vs" by simp
    then show ?thesis by (simp add: st' nth_append li)
  qed
  have 7: "indices (corner_step st v) ! k = word_of_nat (card (set (take k (vs @ [v])))) \<and>
        card (set (take k (vs @ [v]))) < length (vertices (corner_step st v)) \<and>
        vertices (corner_step st v) ! card (set (take k (vs @ [v]))) = (vs @ [v]) ! k"
    if "k < length (vs @ [v])" "(vs @ [v]) ! k \<notin> set (take k (vs @ [v]))" for k
  proof (cases "k < length vs")
    case True
    with that(2) have "vs ! k \<notin> set (take k vs)" by (simp add: nth_append)
    from fo [OF True this] True show ?thesis by (simp add: st' nth_append li)
  next
    case False
    with that have "k = length vs" by simp
    then show ?thesis by (simp add: st' nth_append li cardV)
  qed
  have 8: "unat i < length (vertices (corner_step st v))"
    if "i \<in> set (indices (corner_step st v))" for i
  proof -
    from that have "i \<in> set ?I \<or> i = ?w" by (auto simp: st')
    then show ?thesis
    proof
      assume "i \<in> set ?I"
      from val [OF this] show ?thesis by (simp add: st')
    next
      assume "i = ?w"
      then have "unat i \<le> length ?V" by (simp add: unat_word_of_nat_le)
      then show ?thesis by (simp add: st')
    qed
  qed
  have 9: "vertices (corner_step st v) = rev (remdups (rev (vs @ [v])))"
    using new fst_occ by (simp add: st')
  show ?thesis
    unfolding welded_def using 1 2 3 4 5 6 7 8 9 by blast
qed

lemma welded_old:
  assumes w: "welded vs st" and old: "v \<in> set vs"
  shows "welded (vs @ [v]) (corner_step st v)"
proof -
  let ?V = "vertices st" and ?I = "indices st" and ?U = "uniqueVertices st"
  from w have f: "faceId st = length vs" and d: "distinct ?V" and s: "set ?V = set vs"
    and li: "length ?I = length vs"
    and u: "\<And>x. ?U x = None \<longleftrightarrow> x \<notin> set vs"
    and r: "\<And>k. k < length vs \<Longrightarrow> ?U (vs ! k) = Some (?I ! k)"
    and fo: "\<And>k. k < length vs \<Longrightarrow> vs ! k \<notin> set (take k vs) \<Longrightarrow>
        ?I ! k = word_of_nat (card (set (take k vs))) \<and>
        card (set (take k vs)) < length ?V \<and> ?V ! card (set (take k vs)) = vs ! k"
    and val: "\<And>i. i \<in> set ?I \<Longrightarrow> unat i < length ?V"
    and fst_occ: "?V = rev (remdups (rev vs))"
    unfolding welded_def by blast+
  from old obtain j where j: "j < length vs" "vs ! j = v" by (auto simp: in_set_conv_nth)
  with r [of j] have Uv: "?U v = Some (?I ! j)" by simp
  then have st': "corner_step st v = st\<lparr>faceId := faceId st + 1, indices := ?I @ [?I ! j]\<rparr>"
    by (simp add: corner_step_def intern_old)
  have 1: "faceId (corner_step st v) = length (vs @ [v])" by (simp add: st' f)
  have 2: "distinct (vertices (corner_step st v))" using d by (simp add: st')
  have 3: "set (vertices (corner_step st v)) = set (vs @ [v])" using s old by (auto simp: st')
  have 4: "length (indices (corner_step st v)) = length (vs @ [v])" by (simp add: st' li)
  have 5: "uniqueVertices (corner_step st v) x = None \<longleftrightarrow> x \<notin> set (vs @ [v])" for x
    using u old by (auto simp: st')
  have 6: "uniqueVertices (corner_step st v) ((vs @ [v]) ! k) =
             Some (indices (corner_step st v) ! k)" if "k < length (vs @ [v])" for k
  proof (cases "k < length vs")
    case True
    with r [OF True] show ?thesis by (simp add: st' nth_append li)
  next
    case False
    with that have "k = length vs" by simp
    then show ?thesis by (simp add: st' nth_append li Uv)
  qed
  have 7: "indices (corner_step st v) ! k = word_of_nat (card (set (take k (vs @ [v])))) \<and>
        card (set (take k (vs @ [v]))) < length (vertices (corner_step st v)) \<and>
        vertices (corner_step st v) ! card (set (take k (vs @ [v]))) = (vs @ [v]) ! k"
    if "k < length (vs @ [v])" "(vs @ [v]) ! k \<notin> set (take k (vs @ [v]))" for k
  proof (cases "k < length vs")
    case True
    with that(2) have "vs ! k \<notin> set (take k vs)" by (simp add: nth_append)
    from fo [OF True this] True show ?thesis by (simp add: st' nth_append li)
  next
    case False
    with that(1) have "k = length vs" by simp
    with that(2) old show ?thesis by simp
  qed
  have 8: "unat i < length (vertices (corner_step st v))"
    if "i \<in> set (indices (corner_step st v))" for i
  proof -
    from that j(1) li have "i \<in> set ?I" by (auto simp: st')
    from val [OF this] show ?thesis by (simp add: st')
  qed
  have 9: "vertices (corner_step st v) = rev (remdups (rev (vs @ [v])))"
    using old fst_occ by (simp add: st')
  show ?thesis
    unfolding welded_def using 1 2 3 4 5 6 7 8 9 by blast
qed

lemma welded_foldl:
  "welded vs
     (foldl corner_step
        \<lparr>vertices = [], indices = [], uniqueVertices = Map.empty, faceId = 0\<rparr> vs)"
proof (induction vs rule: rev_induct)
  case Nil
  show ?case by (simp add: welded_init)
next
  case (snoc v vs)
  then show ?case by (cases "v \<in> set vs") (simp_all add: welded_new welded_old)
qed

lemma LoadModel_Inr:
  "LoadModel gray filename obj = Inr m \<longleftrightarrow>
     loaded obj \<and>
     (\<exists>vs. length vs = length (corners (objShapes obj)) \<and>
        (\<forall>k < length vs.
           make_vertex (objAttrib obj) (fst (corners (objShapes obj) ! k)) k
             (snd (corners (objShapes obj) ! k)) = Inr (vs ! k)) \<and>
        m = \<lparr>m_vertices = vertices (foldl corner_step
                \<lparr>vertices = [], indices = [], uniqueVertices = Map.empty, faceId = 0\<rparr> vs),
              m_indices = indices (foldl corner_step
                \<lparr>vertices = [], indices = [], uniqueVertices = Map.empty, faceId = 0\<rparr> vs),
              m_materials = load_materials gray (objMaterials obj), m_procedural = None\<rparr>)"
  (is "?L \<longleftrightarrow> ?R")
proof
  let ?init = "\<lparr>vertices = [], indices = [], uniqueVertices = Map.empty, faceId = 0\<rparr>
                :: 'a assembly"
  assume ?L
  then have l: "loaded obj" by (simp add: LoadModel_def split: if_splits)
  with \<open>?L\<close> obtain st where
    st: "corners_loop (objAttrib obj) (corners (objShapes obj)) ?init = Inr st"
    and m: "m = \<lparr>m_vertices = vertices st, m_indices = indices st,
              m_materials = load_materials gray (objMaterials obj), m_procedural = None\<rparr>"
    by (auto simp: LoadModel_def Let_def bind_error_Inr shapes_loop_corners)
  from st obtain vs where "length vs = length (corners (objShapes obj))"
    "\<forall>k < length (corners (objShapes obj)).
           make_vertex (objAttrib obj) (fst (corners (objShapes obj) ! k)) k
             (snd (corners (objShapes obj) ! k)) = Inr (vs ! k)"
    "st = foldl corner_step ?init vs"
    by (auto simp: corners_loop_Inr)
  with l m show ?R by auto
next
  let ?init = "\<lparr>vertices = [], indices = [], uniqueVertices = Map.empty, faceId = 0\<rparr>
                :: 'a assembly"
  assume ?R
  then obtain vs where l: "loaded obj"
    and vs: "length vs = length (corners (objShapes obj))"
    "\<forall>k < length vs.
           make_vertex (objAttrib obj) (fst (corners (objShapes obj) ! k)) k
             (snd (corners (objShapes obj) ! k)) = Inr (vs ! k)"
    and m: "m = \<lparr>m_vertices = vertices (foldl corner_step ?init vs),
              m_indices = indices (foldl corner_step ?init vs),
              m_materials = load_materials gray (objMaterials obj), m_procedural = None\<rparr>"
    by blast
  have "corners_loop (objAttrib obj) (corners (objShapes obj)) ?init =
          Inr (foldl corner_step ?init vs)"
    unfolding corners_loop_Inr using vs by (intro exI [of _ vs]) simp
  with l m show ?L
    by (simp add: LoadModel_def Let_def bind_error_def shapes_loop_corners)
qed

lemma LoadModel_welded:
  assumes "LoadModel gray filename obj = Inr m"
  shows "\<exists>vs st. length vs = length (corners (objShapes obj)) \<and>
    (\<forall>k < length vs.
       make_vertex (objAttrib obj) (fst (corners (objShapes obj) ! k)) k
         (snd (corners (objShapes obj) ! k)) = Inr (vs ! k)) \<and>
    welded vs st \<and> m_vertices m = vertices st \<and> m_indices m = indices st \<and>
    m_materials m = load_materials gray (objMaterials obj) \<and> m_procedural m = None"
proof -
  from assms obtain vs where vs: "length vs = length (corners (objShapes obj))"
    "\<forall>k < length vs.
           make_vertex (objAttrib obj) (fst (corners (objShapes obj) ! k)) k
             (snd (corners (objShapes obj) ! k)) = Inr (vs ! k)"
    "m = \<lparr>m_vertices = vertices (foldl corner_step
                \<lparr>vertices = [], indices = [], uniqueVertices = Map.empty, faceId = 0\<rparr> vs),
              m_indices = indices (foldl corner_step
                \<lparr>vertices = [], indices = [], uniqueVertices = Map.empty, faceId = 0\<rparr> vs),
              m_materials = load_materials gray (objMaterials obj), m_procedural = None\<rparr>"
    unfolding LoadModel_Inr by blast
  from vs(1,2) welded_foldl [of vs] show ?thesis
    by (intro exI [of _ vs] exI [of _ "foldl corner_step
                \<lparr>vertices = [], indices = [], uniqueVertices = Map.empty, faceId = 0\<rparr> vs"])
      (simp add: vs(3))
qed

lemma at_int_Inr:
  "at_int v s i k = Inr a \<longleftrightarrow>
     in_int_range (s * i) \<and> in_int_range (s * i + k) \<and> 0 \<le> s * i + k \<and>
     nat (s * i + k) < length v \<and> a = v ! nat (s * i + k)"
  by (auto simp: at_int_def at_Inr)

lemma gather_texcoord_Inr:
  "gather_texcoord arr i = Inr t \<Longrightarrow>
     (arr \<noteq> [] \<longrightarrow> t = Vec2 (arr ! nat (2 * i + 0)) (1 - arr ! nat (2 * i + 1))) \<and>
     (arr = [] \<longrightarrow> t = Vec2 0 0)"
  by (auto simp: gather_texcoord_def bind_error_Inr at_int_Inr split: if_splits)

lemma make_vertex_Inr:
  "make_vertex attrib msh fid index = Inr v \<longleftrightarrow>
     (\<exists>p n t. gather3 (attrib_vertices attrib) (vertex_index index) = Inr p \<and>
        gather3 (attrib_normals attrib) (normal_index index) = Inr n \<and>
        gather_texcoord (attrib_texcoords attrib) (texcoord_index index) = Inr t \<and>
        fid div 3 < length (material_ids msh) \<and>
        v = \<lparr>Position = p, Normal = n, TexCoord = t,
             MaterialIndex = max 0 (material_ids msh ! (fid div 3))\<rparr>)"
  by (auto simp: make_vertex_def bind_error_Inr at_Inr)

lemma first_occurrence:
  assumes "k < length vs"
  obtains j where "j \<le> k" "vs ! j = vs ! k" "vs ! j \<notin> set (take j vs)"
proof -
  define j where "j = (LEAST j. vs ! j = vs ! k)"
  have eq: "vs ! j = vs ! k" unfolding j_def by (rule LeastI [of _ k]) simp
  have le: "j \<le> k" unfolding j_def by (rule Least_le) simp
  have "vs ! j \<notin> set (take j vs)"
  proof
    assume "vs ! j \<in> set (take j vs)"
    then obtain i where i: "i < j" "vs ! i = vs ! j"
      using le assms by (auto simp: in_set_conv_nth)
    with eq have "vs ! i = vs ! k" by simp
    then have "j \<le> i" unfolding j_def by (rule Least_le)
    with i(1) show False by simp
  qed
  with le eq show thesis by (rule that)
qed

lemma welded_repeat:
  assumes "welded vs st" "k < length vs" "j < length vs" "vs ! j = vs ! k"
  shows "indices st ! k = indices st ! j"
proof -
  from assms(1) have r: "\<And>k. k < length vs \<Longrightarrow>
      uniqueVertices st (vs ! k) = Some (indices st ! k)"
    unfolding welded_def by blast
  from r [OF assms(2)] r [OF assms(3)] assms(4) show ?thesis by simp
qed

lemma welded_no_wrap:
  assumes w: "welded vs st" and small: "length (vertices st) \<le> 2 ^ 32" and k: "k < length vs"
  shows "vertices st ! unat (indices st ! k) = vs ! k"
proof -
  from first_occurrence [OF k] obtain j where j: "j \<le> k" "vs ! j = vs ! k"
    "vs ! j \<notin> set (take j vs)" .
  from j(1) k have jl: "j < length vs" by simp
  from w have fo: "\<And>k. k < length vs \<Longrightarrow> vs ! k \<notin> set (take k vs) \<Longrightarrow>
        indices st ! k = word_of_nat (card (set (take k vs))) \<and>
        card (set (take k vs)) < length (vertices st) \<and>
        vertices st ! card (set (take k vs)) = vs ! k"
    unfolding welded_def by blast
  from fo [OF jl j(3)] have ij: "indices st ! j = word_of_nat (card (set (take j vs)))"
    and c: "card (set (take j vs)) < length (vertices st)"
    and v: "vertices st ! card (set (take j vs)) = vs ! j"
    by simp_all
  from c small have "card (set (take j vs)) < 2 ^ 32" by simp
  then have "unat (word_of_nat (card (set (take j vs))) :: 32 word) = card (set (take j vs))"
    by (simp add: unat_of_nat)
  with ij have "unat (indices st ! j) = card (set (take j vs))" by simp
  moreover have "indices st ! k = indices st ! j"
    by (rule welded_repeat [OF w k jl j(2)])
  ultimately show ?thesis using v j(2) by simp
qed

lemma welded_distinct:
  assumes w: "welded vs st" and d: "distinct vs" and k: "k < length vs"
  shows "indices st ! k = word_of_nat k" and "vertices st ! k = vs ! k"
    and "length (vertices st) = length vs"
proof -
  from w have fo: "\<And>k. k < length vs \<Longrightarrow> vs ! k \<notin> set (take k vs) \<Longrightarrow>
        indices st ! k = word_of_nat (card (set (take k vs))) \<and>
        card (set (take k vs)) < length (vertices st) \<and>
        vertices st ! card (set (take k vs)) = vs ! k"
    and dv: "distinct (vertices st)" and s: "set (vertices st) = set vs"
    unfolding welded_def by blast+
  have new: "vs ! k \<notin> set (take k vs)"
  proof
    assume "vs ! k \<in> set (take k vs)"
    then obtain i where "i < k" "vs ! i = vs ! k"
      using k by (auto simp: in_set_conv_nth)
    with d k show False by (auto simp: distinct_conv_nth)
  qed
  have "distinct (take k vs)" using d by simp
  then have c: "card (set (take k vs)) = k"
    using k by (simp add: distinct_card)
  from fo [OF k new] show "indices st ! k = word_of_nat k" "vertices st ! k = vs ! k"
    by (simp_all add: c)
  have "length (vertices st) = card (set (vertices st))" using dv by (simp add: distinct_card)
  also have "\<dots> = length vs" using d by (simp add: s distinct_card)
  finally show "length (vertices st) = length vs" .
qed

lemma LoadModel_corner:
  assumes "LoadModel gray filename obj = Inr m" and "k < length (corners (objShapes obj))"
  obtains v where
    "make_vertex (objAttrib obj) (fst (corners (objShapes obj) ! k)) k
       (snd (corners (objShapes obj) ! k)) = Inr v"
    and "v \<in> set (m_vertices m)"
    and "length (m_vertices m) \<le> 2 ^ 32 \<Longrightarrow> m_vertices m ! unat (m_indices m ! k) = v"
proof -
  from assms(1) obtain vs st where l: "length vs = length (corners (objShapes obj))"
    and mk: "\<And>k. k < length vs \<Longrightarrow>
           make_vertex (objAttrib obj) (fst (corners (objShapes obj) ! k)) k
             (snd (corners (objShapes obj) ! k)) = Inr (vs ! k)"
    and w: "welded vs st"
    and m: "m_vertices m = vertices st" "m_indices m = indices st"
    using LoadModel_welded by blast
  from assms(2) l have k: "k < length vs" by simp
  from w have "set (vertices st) = set vs" unfolding welded_def by blast
  with k have "vs ! k \<in> set (m_vertices m)" by (simp add: m)
  moreover have "m_vertices m ! unat (m_indices m ! k) = vs ! k"
    if "length (m_vertices m) \<le> 2 ^ 32"
    using welded_no_wrap [OF w _ k] that by (simp add: m)
  ultimately show thesis using mk [OF k] by (rule that [rotated])
qed

lemma LoadModel_stored:
  assumes "LoadModel gray filename obj = Inr m" and "v \<in> set (m_vertices m)"
  obtains k where "k < length (corners (objShapes obj))"
    "make_vertex (objAttrib obj) (fst (corners (objShapes obj) ! k)) k
       (snd (corners (objShapes obj) ! k)) = Inr v"
proof -
  from assms(1) obtain vs st where l: "length vs = length (corners (objShapes obj))"
    and mk: "\<And>k. k < length vs \<Longrightarrow>
           make_vertex (objAttrib obj) (fst (corners (objShapes obj) ! k)) k
             (snd (corners (objShapes obj) ! k)) = Inr (vs ! k)"
    and w: "welded vs st"
    and m: "m_vertices m = vertices st" "m_indices m = indices st"
    using LoadModel_welded by blast
  from w have "set (vertices st) = set vs" unfolding welded_def by blast
  with assms(2) obtain k where k: "k < length vs" "vs ! k = v"
    by (auto simp: m in_set_conv_nth)
  from mk [OF k(1)] k l show thesis by (intro that [of k]) simp_all
qed

subsection \<open>LoadModel on the concrete inputs\<close>

lemmas run_simps =
  LoadModel_def load_materials_def convert_material_def make_vertex_def gather3_def
  gather_texcoord_def at_int_def at_def in_int_range_def bind_error_simps intern_def
  corner_def vertex_of_def Let_def red_def green_def

lemma square_run: "LoadModel 7 ''square.obj'' square_obj = Inr square_model"
  by (simp add: square_obj_def square_model_def run_simps cong: bind_error_weak_cong)

lemma one_corner_run: "LoadModel 7 ''dot.obj'' one_corner_obj = Inr one_corner_model"
  by (simp add: one_corner_obj_def one_corner_model_def run_simps cong: bind_error_weak_cong)

lemma stray_material_run:
  "LoadModel 7 ''stray.obj'' stray_material_obj = Inr stray_material_model"
  by (simp add: stray_material_obj_def stray_material_model_def run_simps
      cong: bind_error_weak_cong)

lemma quad_run: "LoadModel 7 ''quad.obj'' quad_obj = Inr quad_model"
  by (simp add: quad_obj_def quad_model_def run_simps cong: bind_error_weak_cong)

lemma plain_triangle_run:
  "LoadModel 7 ''plain.obj'' plain_triangle_obj = Inr plain_triangle_model"
  by (simp add: plain_triangle_obj_def plain_triangle_model_def run_simps
      cong: bind_error_weak_cong)


lemma map_int_upt_nth: "i < n \<Longrightarrow> map int [0..<n] ! i = int i"
  by simp

lemma gather3_iota:
  assumes "3 * i + 2 < n" and "n < 2 ^ 31"
  shows "gather3 (map int [0..<n]) (int i) =
           Inr (Vec3 (3 * int i) (3 * int i + 1) (3 * int i + 2))"
proof -
  have r: "in_int_range (3 * int i)" "in_int_range (3 * int i + 1)"
    "in_int_range (3 * int i + 2)"
    using assms by (simp_all add: in_int_range_def)
  have n: "nat (3 * int i) = 3 * i" "nat (3 * int i + 1) = 3 * i + 1"
    "nat (3 * int i + 2) = 3 * i + 2"
    by (simp_all add: nat_add_distrib nat_mult_distrib)
  have a: "at_int (map int [0..<n]) 3 (int i) 0 = Inr (3 * int i)"
    using assms r by (simp add: at_int_def at_def n)
  have b: "at_int (map int [0..<n]) 3 (int i) 1 = Inr (3 * int i + 1)"
    using assms r by (simp add: at_int_def at_def n)
  have c: "at_int (map int [0..<n]) 3 (int i) 2 = Inr (3 * int i + 2)"
    using assms r by (simp add: at_int_def at_def n)
  show ?thesis by (simp add: gather3_def a b c bind_error_simps)
qed

lemma big_make_vertex:
  assumes "k < big_n"
  shows "make_vertex (objAttrib big_obj) big_mesh k (big_corner k) = Inr (big_vertex k)"
proof -
  from assms have k: "k < 4294967298" by (simp add: big_n_def)
  then have d: "k div 65536 \<le> 65536" by simp
  have m: "k mod 65536 < 65536" by simp
  have p: "gather3 (map int [0..<196611]) (int (k div 65536)) =
      Inr (Vec3 (3 * int (k div 65536)) (3 * int (k div 65536) + 1)
                   (3 * int (k div 65536) + 2))"
    using d by (intro gather3_iota) simp_all
  have n: "gather3 (map int [0..<196608]) (int (k mod 65536)) =
      Inr (Vec3 (3 * int (k mod 65536)) (3 * int (k mod 65536) + 1)
                   (3 * int (k mod 65536) + 2))"
    using m by (intro gather3_iota) simp_all
  have f: "k div 3 < 1431655766" using k by simp
  show ?thesis
    using f by (simp add: make_vertex_def big_obj_def big_mesh_def big_corner_def corner_def
        p n gather_texcoord_def at_def bind_error_simps big_vertex_def)
qed

lemma big_vertex_inj: "big_vertex j = big_vertex k \<Longrightarrow> j = k"
proof -
  assume "big_vertex j = big_vertex k"
  then have "j div 65536 = k div 65536" "j mod 65536 = k mod 65536"
    by (simp_all add: big_vertex_def)
  then show "j = k" by (metis div_mult_mod_eq)
qed

lemma big_corners: "corners (objShapes big_obj) = map (\<lambda>k. (big_mesh, big_corner k)) [0..<big_n]"
  by (simp add: corners_def big_obj_def big_mesh_def comp_def)

lemma big_run:
  "LoadModel 7 [] big_obj =
     Inr \<lparr>m_vertices = vertices (foldl corner_step
                \<lparr>vertices = [], indices = [], uniqueVertices = Map.empty, faceId = 0\<rparr>
                (map big_vertex [0..<big_n])),
          m_indices = indices (foldl corner_step
                \<lparr>vertices = [], indices = [], uniqueVertices = Map.empty, faceId = 0\<rparr>
                (map big_vertex [0..<big_n])),
          m_materials = load_materials 7 (objMaterials big_obj), m_procedural = None\<rparr>"
  unfolding LoadModel_Inr
  by (intro conjI exI [of _ "map big_vertex [0..<big_n]"])
    (simp_all add: big_corners big_make_vertex, simp add: big_obj_def)

lemma big_distinct: "distinct (map big_vertex [0..<big_n])"
  by (auto simp: distinct_map intro!: inj_onI dest: big_vertex_inj)

lemma gather3_readable:
  "(\<exists>p. gather3 arr i = Inr p) \<longleftrightarrow>
     0 \<le> i \<and> 3 * i + 2 < int (length arr) \<and> 3 * i + 2 < 2 ^ 31"
  by (auto simp: gather3_def bind_error_Inr at_int_Inr in_int_range_def)

lemma gather_texcoord_readable:
  "(\<exists>t. gather_texcoord arr i = Inr t) \<longleftrightarrow>
     (arr \<noteq> [] \<longrightarrow> 0 \<le> i \<and> 2 * i + 1 < int (length arr) \<and> 2 * i + 1 < 2 ^ 31)"
  by (auto simp: gather_texcoord_def bind_error_Inr at_int_Inr in_int_range_def)

lemma make_vertex_readable:
  "(\<exists>v. make_vertex attrib msh fid index = Inr v) \<longleftrightarrow> corner_readable attrib msh fid index"
proof -
  have "(\<exists>v. make_vertex attrib msh fid index = Inr v) \<longleftrightarrow>
      (\<exists>p. gather3 (attrib_vertices attrib) (vertex_index index) = Inr p) \<and>
      (\<exists>n. gather3 (attrib_normals attrib) (normal_index index) = Inr n) \<and>
      (\<exists>t. gather_texcoord (attrib_texcoords attrib) (texcoord_index index) = Inr t) \<and>
      fid div 3 < length (material_ids msh)"
    unfolding make_vertex_Inr by blast
  then show ?thesis
    unfolding gather3_readable gather_texcoord_readable corner_readable_def by blast
qed

lemma LoadModel_produces:
  "(\<exists>m. LoadModel gray filename obj = Inr m) \<longleftrightarrow>
     loaded obj \<and>
     (\<forall>k < length (corners (objShapes obj)).
        corner_readable (objAttrib obj) (fst (corners (objShapes obj) ! k)) k
          (snd (corners (objShapes obj) ! k)))"
  (is "?L \<longleftrightarrow> ?R")
proof
  assume ?L
  then obtain m vs where "loaded obj" "length vs = length (corners (objShapes obj))"
    "\<forall>k < length vs.
       make_vertex (objAttrib obj) (fst (corners (objShapes obj) ! k)) k
         (snd (corners (objShapes obj) ! k)) = Inr (vs ! k)"
    unfolding LoadModel_Inr by blast
  then show ?R unfolding make_vertex_readable [symmetric] by auto
next
  assume r: ?R
  let ?n = "length (corners (objShapes obj))"
  let ?vs = "map (\<lambda>k. projr (make_vertex (objAttrib obj) (fst (corners (objShapes obj) ! k)) k
         (snd (corners (objShapes obj) ! k)))) [0..<?n]"
  have "make_vertex (objAttrib obj) (fst (corners (objShapes obj) ! k)) k
         (snd (corners (objShapes obj) ! k)) = Inr (?vs ! k)" if "k < ?n" for k
  proof -
    from r that obtain v where "make_vertex (objAttrib obj) (fst (corners (objShapes obj) ! k)) k
         (snd (corners (objShapes obj) ! k)) = Inr v"
      unfolding make_vertex_readable [symmetric] by blast
    with that show ?thesis by simp
  qed
  then have "\<forall>k < length ?vs.
       make_vertex (objAttrib obj) (fst (corners (objShapes obj) ! k)) k
         (snd (corners (objShapes obj) ! k)) = Inr (?vs ! k)"
    by simp
  moreover have "length ?vs = ?n" by simp
  ultimately show ?L using r unfolding LoadModel_Inr by blast
qed

lemma quad_readable:
  "loaded quad_obj \<and>
   (\<forall>k < length (corners (objShapes quad_obj)).
      corner_readable (objAttrib quad_obj) (fst (corners (objShapes quad_obj) ! k)) k
        (snd (corners (objShapes quad_obj) ! k)))"
  by (auto simp: quad_obj_def corners_def corner_readable_def corner_def less_Suc_eq)

lemma plain_triangle_readable:
  "loaded plain_triangle_obj \<and>
   (\<forall>k < length (corners (objShapes plain_triangle_obj)).
      corner_readable (objAttrib plain_triangle_obj)
        (fst (corners (objShapes plain_triangle_obj) ! k)) k
        (snd (corners (objShapes plain_triangle_obj) ! k)))"
  by (auto simp: plain_triangle_obj_def corners_def corner_readable_def corner_def less_Suc_eq)

lemma missing_texcoord_unreadable:
  "\<not> corner_readable (objAttrib missing_texcoord_obj)
       (fst (corners (objShapes missing_texcoord_obj) ! 2)) 2
       (snd (corners (objShapes missing_texcoord_obj) ! 2)) \<and>
   2 < length (corners (objShapes missing_texcoord_obj))"
  by (simp add: missing_texcoord_obj_def corners_def corner_readable_def corner_def)

lemma length_corners:
  "length (corners shapes) = sum_list (map (\<lambda>shape. length (mesh_indices (mesh shape))) shapes)"
  by (simp add: corners_def length_concat comp_def)

lemma dvd_sum_list_map:
  "(\<And>x. x \<in> set xs \<Longrightarrow> (d::nat) dvd f x) \<Longrightarrow> d dvd sum_list (map f xs)"
  by (induction xs) simp_all

lemma corners_mesh:
  "c \<in> set (corners shapes) \<Longrightarrow> \<exists>shape \<in> set shapes. fst c = mesh shape"
  by (auto simp: corners_def)

subsection \<open>LoadModel\<close>

text \<open>
  \<^bold>\<open>C1\<close> (vertex deduplication), as amended.  Let \<open>vs\<close> be the vertices built for the
  corners, in order.  In a model that \<open>LoadModel\<close> produces, a corner \<open>k\<close> whose vertex
  has not occurred before has its vertex stored at position \<open>card (set (take k vs))\<close>,
  the number of vertices stored so far, and its index is this position as a 32-bit
  value, that is modulo \<open>2^32\<close>; a corner whose vertex has occurred before gets the
  index recorded for the earlier corner.  The vertex buffer is \<open>vs\<close> without its
  repeated occurrences, so it has as many entries as there are distinct vertices among
  the corners and no two of them are equal.  When the model has at most \<open>2^32\<close>
  vertices, the index of a first occurrence is the position itself and every index
  refers to the vertex of its corner.
\<close>

theorem LoadModel_dedup:
  assumes "LoadModel gray filename obj = Inr m"
  shows "\<exists>vs. length vs = length (corners (objShapes obj)) \<and>
    (\<forall>k < length vs.
       make_vertex (objAttrib obj) (fst (corners (objShapes obj) ! k)) k
         (snd (corners (objShapes obj) ! k)) = Inr (vs ! k)) \<and>
    length (m_indices m) = length vs \<and>
    (\<forall>k < length vs. vs ! k \<notin> set (take k vs) \<longrightarrow>
       m_indices m ! k = word_of_nat (card (set (take k vs))) \<and>
       m_vertices m ! card (set (take k vs)) = vs ! k) \<and>
    (\<forall>k < length vs. \<forall>j < k. vs ! j = vs ! k \<longrightarrow> m_indices m ! k = m_indices m ! j) \<and>
    m_vertices m = rev (remdups (rev vs)) \<and>
    length (m_vertices m) = card (set vs) \<and>
    distinct (m_vertices m) \<and>
    (length (m_vertices m) \<le> 2 ^ 32 \<longrightarrow>
       (\<forall>k < length vs.
          m_vertices m ! unat (m_indices m ! k) = vs ! k \<and>
          (vs ! k \<notin> set (take k vs) \<longrightarrow>
             unat (m_indices m ! k) = card (set (take k vs)))))"
proof -
  from assms obtain vs st where l: "length vs = length (corners (objShapes obj))"
    and mk: "\<forall>k < length vs.
           make_vertex (objAttrib obj) (fst (corners (objShapes obj) ! k)) k
             (snd (corners (objShapes obj) ! k)) = Inr (vs ! k)"
    and w: "welded vs st"
    and m: "m_vertices m = vertices st" "m_indices m = indices st"
    using LoadModel_welded by blast
  from w have d: "distinct (vertices st)" and s: "set (vertices st) = set vs"
    and li: "length (indices st) = length vs"
    and fo: "\<And>k. k < length vs \<Longrightarrow> vs ! k \<notin> set (take k vs) \<Longrightarrow>
        indices st ! k = word_of_nat (card (set (take k vs))) \<and>
        card (set (take k vs)) < length (vertices st) \<and>
        vertices st ! card (set (take k vs)) = vs ! k"
    and fst_occ: "vertices st = rev (remdups (rev vs))"
    unfolding welded_def by blast+
  have 1: "length (m_indices m) = length vs" by (simp add: m li)
  have 2: "\<forall>k < length vs. vs ! k \<notin> set (take k vs) \<longrightarrow>
       m_indices m ! k = word_of_nat (card (set (take k vs))) \<and>
       m_vertices m ! card (set (take k vs)) = vs ! k"
  proof (intro allI impI)
    fix k assume "k < length vs" "vs ! k \<notin> set (take k vs)"
    from fo [OF this] show "m_indices m ! k = word_of_nat (card (set (take k vs))) \<and>
       m_vertices m ! card (set (take k vs)) = vs ! k"
      by (simp only: m)
  qed
  have 3: "\<forall>k < length vs. \<forall>j < k. vs ! j = vs ! k \<longrightarrow> m_indices m ! k = m_indices m ! j"
  proof (intro allI impI)
    fix k j assume "k < length vs" "j < k" "vs ! j = vs ! k"
    then have "indices st ! k = indices st ! j"
      by (intro welded_repeat [OF w]) simp_all
    then show "m_indices m ! k = m_indices m ! j" by (simp only: m)
  qed
  have 4: "m_vertices m = rev (remdups (rev vs))" by (simp only: m fst_occ)
  have "card (set (vertices st)) = length (vertices st)" using d by (rule distinct_card)
  then have 5: "length (m_vertices m) = card (set vs)" by (simp only: m s)
  have 6: "distinct (m_vertices m)" by (simp only: m d)
  have 7: "length (m_vertices m) \<le> 2 ^ 32 \<longrightarrow>
       (\<forall>k < length vs.
          m_vertices m ! unat (m_indices m ! k) = vs ! k \<and>
          (vs ! k \<notin> set (take k vs) \<longrightarrow>
             unat (m_indices m ! k) = card (set (take k vs))))"
  proof (intro allI impI conjI)
    fix k assume small: "length (m_vertices m) \<le> 2 ^ 32" and k: "k < length vs"
    from small have small': "length (vertices st) \<le> 2 ^ 32" by (simp only: m)
    from welded_no_wrap [OF w small' k]
    show "m_vertices m ! unat (m_indices m ! k) = vs ! k" by (simp only: m)
    assume "vs ! k \<notin> set (take k vs)"
    from fo [OF k this] small' have i: "indices st ! k = word_of_nat (card (set (take k vs)))"
      and "card (set (take k vs)) < 2 ^ 32"
      by simp_all
    then have "unat (word_of_nat (card (set (take k vs))) :: 32 word) = card (set (take k vs))"
      by (simp add: unat_of_nat)
    then show "unat (m_indices m ! k) = card (set (take k vs))" by (simp only: m i)
  qed
  show ?thesis
  proof (intro exI [of _ vs] conjI)
    show "length vs = length (corners (objShapes obj))" by (fact l)
    show "\<forall>k < length vs.
       make_vertex (objAttrib obj) (fst (corners (objShapes obj) ! k)) k
         (snd (corners (objShapes obj) ! k)) = Inr (vs ! k)" by (fact mk)
  qed (fact 1 2 3 4 5 6 7)+
qed

theorem LoadModel_dedup_witness:
  "distinct (m_vertices square_model) \<and> length (m_vertices square_model) = 7 \<and>
   length (m_indices square_model) = length (corners (objShapes square_obj))"
proof -
  from LoadModel_dedup [OF square_run]
  have "distinct (m_vertices square_model) \<and>
    length (m_indices square_model) = length (corners (objShapes square_obj))"
    by auto
  then show ?thesis by (simp add: square_model_def)
qed

text \<open>The claim as stated fails at corner \<open>2^32\<close> of the large file.  The model is
  produced; the vertex of this corner has not occurred before and is stored at position
  \<open>2^32\<close>, the length of the vertex buffer minus one at that moment; the index recorded
  for the corner is \<open>0\<close>, which refers to another vertex.\<close>

theorem LoadModel_dedup_index_counterexample:
  "\<not> isl (LoadModel 7 [] big_obj) \<and>
   make_vertex (objAttrib big_obj) (fst (corners (objShapes big_obj) ! 4294967296)) 4294967296
       (snd (corners (objShapes big_obj) ! 4294967296)) =
     Inr (m_vertices (projr (LoadModel 7 [] big_obj)) ! 4294967296) \<and>
   m_vertices (projr (LoadModel 7 [] big_obj)) ! 4294967296 \<notin>
     set (take 4294967296 (m_vertices (projr (LoadModel 7 [] big_obj)))) \<and>
   m_indices (projr (LoadModel 7 [] big_obj)) ! 4294967296 = 0 \<and>
   unat (m_indices (projr (LoadModel 7 [] big_obj)) ! 4294967296) \<noteq> 4294967296 \<and>
   m_vertices (projr (LoadModel 7 [] big_obj)) ! 0 \<noteq>
     m_vertices (projr (LoadModel 7 [] big_obj)) ! 4294967296"
proof -
  let ?vs = "map big_vertex [0..<big_n]"
  let ?st = "foldl corner_step
                \<lparr>vertices = [], indices = [], uniqueVertices = Map.empty, faceId = 0\<rparr> ?vs"
  let ?m = "projr (LoadModel 7 [] big_obj)"
  have w: "welded ?vs ?st" by (rule welded_foldl)
  have mv: "m_vertices ?m = vertices ?st" and mi: "m_indices ?m = indices ?st"
    by (simp_all add: big_run)
  have k: "4294967296 < length ?vs" "0 < length ?vs" by (simp_all add: big_n_def)
  have k': "(4294967296::nat) < big_n" "0 < big_n" by (simp_all add: big_n_def)
  have v: "m_vertices ?m ! 4294967296 = big_vertex 4294967296"
    using welded_distinct(2) [OF w big_distinct k(1)] k' by (simp add: mv)
  have v0: "m_vertices ?m ! 0 = big_vertex 0"
    using welded_distinct(2) [OF w big_distinct k(2)] k' by (simp add: mv)
  have i: "m_indices ?m ! 4294967296 = 0"
    using welded_distinct(1) [OF w big_distinct k(1)] by (simp add: mi)
  have 1: "\<not> isl (LoadModel 7 [] big_obj)" by (simp add: big_run)
  have 2: "make_vertex (objAttrib big_obj) (fst (corners (objShapes big_obj) ! 4294967296))
       4294967296 (snd (corners (objShapes big_obj) ! 4294967296)) =
     Inr (m_vertices ?m ! 4294967296)"
    using k' by (simp add: big_corners big_make_vertex v)
  have dv: "distinct (m_vertices ?m)" using w unfolding welded_def mv by blast
  have lv: "length (m_vertices ?m) = big_n"
    using welded_distinct(3) [OF w big_distinct k(1)] by (simp add: mv)
  have 3: "m_vertices ?m ! 4294967296 \<notin> set (take 4294967296 (m_vertices ?m))"
  proof
    assume "m_vertices ?m ! 4294967296 \<in> set (take 4294967296 (m_vertices ?m))"
    then obtain j where "j < 4294967296" "m_vertices ?m ! j = m_vertices ?m ! 4294967296"
      using lv k' by (auto simp: in_set_conv_nth)
    with dv lv k' show False by (auto simp: distinct_conv_nth)
  qed
  have 5: "unat (m_indices ?m ! 4294967296) \<noteq> 4294967296" by (simp add: i)
  have "big_vertex 0 \<noteq> big_vertex 4294967296" by (simp add: big_vertex_def)
  then have 6: "m_vertices ?m ! 0 \<noteq> m_vertices ?m ! 4294967296" by (simp add: v v0)
  from 1 2 3 i 5 6 show ?thesis by blast
qed

lemma index_buffer_valid:
  assumes "LoadModel gray filename obj = Inr m"
  shows "(\<forall>i \<in> set (m_indices m). unat i < length (m_vertices m)) \<and>
    length (m_indices m) =
      sum_list (map (\<lambda>shape. length (mesh_indices (mesh shape))) (objShapes obj)) \<and>
    ((\<forall>shape \<in> set (objShapes obj). 3 dvd length (mesh_indices (mesh shape))) \<longrightarrow>
       3 dvd length (m_indices m))"
proof -
  from assms obtain vs st where l: "length vs = length (corners (objShapes obj))"
    and w: "welded vs st"
    and m: "m_vertices m = vertices st" "m_indices m = indices st"
    using LoadModel_welded by blast
  from w have val: "\<forall>i \<in> set (indices st). unat i < length (vertices st)"
    and li: "length (indices st) = length vs"
    unfolding welded_def by blast+
  have len: "length (m_indices m) =
      sum_list (map (\<lambda>shape. length (mesh_indices (mesh shape))) (objShapes obj))"
    by (simp add: m li l length_corners)
  have "3 dvd length (m_indices m)"
    if "\<forall>shape \<in> set (objShapes obj). 3 dvd length (mesh_indices (mesh shape))"
    unfolding len using that by (intro dvd_sum_list_map) simp
  with val len show ?thesis by (simp add: m)
qed

text \<open>
  \<^bold>\<open>C2\<close> (index validity).  \<open>LoadModel\<close> produces a model exactly when the parser
  succeeded and every corner is readable.  In every model it produces, every value of
  the index buffer is below the number of vertices, and the index buffer has one entry
  per corner of the parsed shapes; for triangulated input, which the assembler requires
  of the parser, its length is therefore a multiple of 3.
\<close>

theorem LoadModel_index_validity:
  "((\<exists>m. LoadModel gray filename obj = Inr m) \<longleftrightarrow>
      loaded obj \<and>
      (\<forall>k < length (corners (objShapes obj)).
         corner_readable (objAttrib obj) (fst (corners (objShapes obj) ! k)) k
           (snd (corners (objShapes obj) ! k)))) \<and>
   (\<forall>m. LoadModel gray filename obj = Inr m \<longrightarrow>
      (\<forall>i \<in> set (m_indices m). unat i < length (m_vertices m)) \<and>
      length (m_indices m) =
        sum_list (map (\<lambda>shape. length (mesh_indices (mesh shape))) (objShapes obj)) \<and>
      ((\<forall>shape \<in> set (objShapes obj). 3 dvd length (mesh_indices (mesh shape))) \<longrightarrow>
         3 dvd length (m_indices m)))"
  using LoadModel_produces [of gray filename obj] index_buffer_valid [of gray filename obj]
  by blast

theorem LoadModel_index_validity_witness:
  "(\<exists>m. LoadModel 7 ''quad.obj'' quad_obj = Inr m) \<and>
   unat (m_indices (projr (LoadModel 7 ''quad.obj'' quad_obj)) ! 5)
     < length (m_vertices (projr (LoadModel 7 ''quad.obj'' quad_obj))) \<and>
   3 dvd length (m_indices (projr (LoadModel 7 ''quad.obj'' quad_obj))) \<and>
   length (m_indices (projr (LoadModel 7 ''quad.obj'' quad_obj))) = 6"
proof -
  note inst = LoadModel_index_validity [of 7 "''quad.obj''" quad_obj]
  from inst quad_readable have 1: "\<exists>m. LoadModel 7 ''quad.obj'' quad_obj = Inr m" by blast
  have tri: "\<forall>shape \<in> set (objShapes quad_obj). 3 dvd length (mesh_indices (mesh shape))"
    by (simp add: quad_obj_def) presburger
  have run: "LoadModel 7 ''quad.obj'' quad_obj = Inr (projr (LoadModel 7 ''quad.obj'' quad_obj))"
    using 1 by auto
  have l: "length (m_indices (projr (LoadModel 7 ''quad.obj'' quad_obj))) = 6"
    by (simp add: quad_run quad_model_def)
  then have "m_indices (projr (LoadModel 7 ''quad.obj'' quad_obj)) ! 5
      \<in> set (m_indices (projr (LoadModel 7 ''quad.obj'' quad_obj)))"
    by simp
  with inst run tri have
    "unat (m_indices (projr (LoadModel 7 ''quad.obj'' quad_obj)) ! 5)
       < length (m_vertices (projr (LoadModel 7 ''quad.obj'' quad_obj)))"
    "3 dvd length (m_indices (projr (LoadModel 7 ''quad.obj'' quad_obj)))"
    by blast+
  with 1 l show ?thesis by blast
qed

lemma load_materials_nonempty: "load_materials gray ms \<noteq> []"
  by (simp add: load_materials_def Let_def)

text \<open>
  \<^bold>\<open>C3\<close> (material invariant), as amended.  In every model that \<open>LoadModel\<close> produces
  the material table is not empty: it is the single fallback material
  \<open>(gray, gray, gray, 1)\<close> when the parser found no material, and otherwise one
  material per parsed material, with its three diffuse components and alpha 1.  Every
  vertex has a material index that is not negative; it is below the size of the
  material table provided that every material id of the parsed shapes is.
\<close>

theorem LoadModel_materials:
  assumes "LoadModel gray filename obj = Inr m"
  shows "m_materials m \<noteq> [] \<and>
    (objMaterials obj = [] \<longrightarrow> m_materials m = [\<lparr>Diffuse = Vec4 gray gray gray 1\<rparr>]) \<and>
    (objMaterials obj \<noteq> [] \<longrightarrow>
       m_materials m =
         map (\<lambda>material. \<lparr>Diffuse = Vec4 (fst (diffuse material)) (fst (snd (diffuse material)))
                                     (snd (snd (diffuse material))) 1\<rparr>) (objMaterials obj)) \<and>
    (\<forall>v \<in> set (m_vertices m). 0 \<le> MaterialIndex v) \<and>
    ((\<forall>shape \<in> set (objShapes obj). \<forall>material_id \<in> set (material_ids (mesh shape)).
        material_id < int (length (m_materials m))) \<longrightarrow>
     (\<forall>v \<in> set (m_vertices m). MaterialIndex v < int (length (m_materials m))))"
proof -
  from assms have mm: "m_materials m = load_materials gray (objMaterials obj)"
    using LoadModel_welded by blast
  have ne: "m_materials m \<noteq> []" by (simp add: mm load_materials_nonempty)
  have a: "m_materials m = [\<lparr>Diffuse = Vec4 gray gray gray 1\<rparr>]" if "objMaterials obj = []"
    using that by (simp add: mm load_materials_def)
  have b: "m_materials m =
         map (\<lambda>material. \<lparr>Diffuse = Vec4 (fst (diffuse material)) (fst (snd (diffuse material)))
                                     (snd (snd (diffuse material))) 1\<rparr>) (objMaterials obj)"
    if "objMaterials obj \<noteq> []"
    using that by (simp add: mm load_materials_def convert_material_def split_beta)
  have stored: "\<exists>shape \<in> set (objShapes obj). \<exists>n < length (material_ids (mesh shape)).
       MaterialIndex v = max 0 (material_ids (mesh shape) ! n)"
    if "v \<in> set (m_vertices m)" for v
  proof -
    from LoadModel_stored [OF assms that] obtain k where
      k: "k < length (corners (objShapes obj))"
      "make_vertex (objAttrib obj) (fst (corners (objShapes obj) ! k)) k
         (snd (corners (objShapes obj) ! k)) = Inr v" .
    from k(1) obtain shape where s: "shape \<in> set (objShapes obj)"
      "fst (corners (objShapes obj) ! k) = mesh shape"
      using corners_mesh [of "corners (objShapes obj) ! k" "objShapes obj"] by auto
    from k(2) have "k div 3 < length (material_ids (mesh shape))"
      "MaterialIndex v = max 0 (material_ids (mesh shape) ! (k div 3))"
      by (auto simp: make_vertex_Inr s(2))
    with s(1) show ?thesis by blast
  qed
  have c: "0 \<le> MaterialIndex v" if "v \<in> set (m_vertices m)" for v
    using stored [OF that] by auto
  have d: "MaterialIndex v < int (length (m_materials m))"
    if "\<forall>shape \<in> set (objShapes obj). \<forall>material_id \<in> set (material_ids (mesh shape)).
        material_id < int (length (m_materials m))" "v \<in> set (m_vertices m)" for v
  proof -
    from stored [OF that(2)] obtain shape n where s: "shape \<in> set (objShapes obj)"
      "n < length (material_ids (mesh shape))"
      "MaterialIndex v = max 0 (material_ids (mesh shape) ! n)"
      by blast
    from s(1,2) that(1) have "material_ids (mesh shape) ! n < int (length (m_materials m))"
      by (meson nth_mem)
    moreover from ne have "0 < int (length (m_materials m))" by simp
    ultimately show ?thesis by (simp add: s(3))
  qed
  from ne a b c d show ?thesis by blast
qed

theorem LoadModel_materials_witness:
  "m_materials square_model = [red, green] \<and>
   MaterialIndex (m_vertices square_model ! 6) < int (length (m_materials square_model)) \<and>
   m_materials one_corner_model = [\<lparr>Diffuse = Vec4 7 7 7 1\<rparr>]"
proof -
  have ids: "\<forall>shape \<in> set (objShapes square_obj). \<forall>material_id \<in> set (material_ids (mesh shape)).
        material_id < int (length (m_materials square_model))"
    by (simp add: square_obj_def square_model_def)
  have v: "m_vertices square_model ! 6 \<in> set (m_vertices square_model)"
    by (simp add: square_model_def)
  have ms: "objMaterials square_obj \<noteq> []" "objMaterials one_corner_obj = []"
    by (simp_all add: square_obj_def one_corner_obj_def)
  from LoadModel_materials [OF square_run] ids v
  have "MaterialIndex (m_vertices square_model ! 6) < int (length (m_materials square_model))"
    by blast
  moreover from LoadModel_materials [OF square_run] ms(1)
  have "m_materials square_model = [red, green]"
    by (simp add: square_obj_def red_def green_def)
  moreover from LoadModel_materials [OF one_corner_run] ms(2)
  have "m_materials one_corner_model = [\<lparr>Diffuse = Vec4 7 7 7 1\<rparr>]"
    by blast
  ultimately show ?thesis by simp
qed

text \<open>The claim as stated fails when a face names the material 5 and the file has no
  material: the model is produced with one material and vertices of material index 5.\<close>

theorem LoadModel_material_index_counterexample:
  "LoadModel 7 ''stray.obj'' stray_material_obj = Inr stray_material_model \<and>
   \<not> MaterialIndex (m_vertices stray_material_model ! 0)
       < int (length (m_materials stray_material_model))"
  by (simp add: stray_material_run) (simp add: stray_material_model_def vertex_of_def)





lemma corner_texcoord:
  assumes "LoadModel gray filename obj = Inr m"
  shows "(\<forall>k < length (corners (objShapes obj)).
      \<exists>v. make_vertex (objAttrib obj) (fst (corners (objShapes obj) ! k)) k
             (snd (corners (objShapes obj) ! k)) = Inr v \<and>
        v \<in> set (m_vertices m) \<and>
        (length (m_vertices m) \<le> 2 ^ 32 \<longrightarrow> m_vertices m ! unat (m_indices m ! k) = v) \<and>
        (attrib_texcoords (objAttrib obj) \<noteq> [] \<longrightarrow>
           TexCoord v =
             Vec2 (attrib_texcoords (objAttrib obj) !
                     nat (2 * texcoord_index (snd (corners (objShapes obj) ! k)) + 0))
                  (1 - attrib_texcoords (objAttrib obj) !
                     nat (2 * texcoord_index (snd (corners (objShapes obj) ! k)) + 1))) \<and>
        (attrib_texcoords (objAttrib obj) = [] \<longrightarrow> TexCoord v = Vec2 0 0)) \<and>
    (\<forall>v \<in> set (m_vertices m).
       (attrib_texcoords (objAttrib obj) = [] \<longrightarrow> TexCoord v = Vec2 0 0) \<and>
       (attrib_texcoords (objAttrib obj) \<noteq> [] \<longrightarrow>
          (\<exists>c \<in> set (corners (objShapes obj)).
             TexCoord v =
               Vec2 (attrib_texcoords (objAttrib obj) ! nat (2 * texcoord_index (snd c) + 0))
                    (1 - attrib_texcoords (objAttrib obj) !
                       nat (2 * texcoord_index (snd c) + 1)))))"
proof (intro conjI allI impI ballI)
  fix k assume k: "k < length (corners (objShapes obj))"
  from LoadModel_corner [OF assms k] obtain v where
    v: "make_vertex (objAttrib obj) (fst (corners (objShapes obj) ! k)) k
             (snd (corners (objShapes obj) ! k)) = Inr v" "v \<in> set (m_vertices m)"
      "length (m_vertices m) \<le> 2 ^ 32 \<Longrightarrow> m_vertices m ! unat (m_indices m ! k) = v"
    by blast
  from v(1) have "gather_texcoord (attrib_texcoords (objAttrib obj))
      (texcoord_index (snd (corners (objShapes obj) ! k))) = Inr (TexCoord v)"
    by (auto simp: make_vertex_Inr)
  from gather_texcoord_Inr [OF this] v
  show "\<exists>v. make_vertex (objAttrib obj) (fst (corners (objShapes obj) ! k)) k
             (snd (corners (objShapes obj) ! k)) = Inr v \<and>
        v \<in> set (m_vertices m) \<and>
        (length (m_vertices m) \<le> 2 ^ 32 \<longrightarrow> m_vertices m ! unat (m_indices m ! k) = v) \<and>
        (attrib_texcoords (objAttrib obj) \<noteq> [] \<longrightarrow>
           TexCoord v =
             Vec2 (attrib_texcoords (objAttrib obj) !
                     nat (2 * texcoord_index (snd (corners (objShapes obj) ! k)) + 0))
                  (1 - attrib_texcoords (objAttrib obj) !
                     nat (2 * texcoord_index (snd (corners (objShapes obj) ! k)) + 1))) \<and>
        (attrib_texcoords (objAttrib obj) = [] \<longrightarrow> TexCoord v = Vec2 0 0)"
    by (intro exI [of _ v]) blast
next
  fix v assume v: "v \<in> set (m_vertices m)"
  from LoadModel_stored [OF assms v] obtain k where
    k: "k < length (corners (objShapes obj))"
      "make_vertex (objAttrib obj) (fst (corners (objShapes obj) ! k)) k
         (snd (corners (objShapes obj) ! k)) = Inr v" .
  from k(2) have g: "gather_texcoord (attrib_texcoords (objAttrib obj))
      (texcoord_index (snd (corners (objShapes obj) ! k))) = Inr (TexCoord v)"
    by (auto simp: make_vertex_Inr)
  {
    assume "attrib_texcoords (objAttrib obj) = []"
    with gather_texcoord_Inr [OF g] show "TexCoord v = Vec2 0 0" by blast
  }
  {
    assume "attrib_texcoords (objAttrib obj) \<noteq> []"
    with gather_texcoord_Inr [OF g] k(1)
    show "\<exists>c \<in> set (corners (objShapes obj)).
             TexCoord v =
               Vec2 (attrib_texcoords (objAttrib obj) ! nat (2 * texcoord_index (snd c) + 0))
                    (1 - attrib_texcoords (objAttrib obj) !
                       nat (2 * texcoord_index (snd c) + 1))"
      by (intro bexI [of _ "corners (objShapes obj) ! k"]) auto
  }
qed

text \<open>
  \<^bold>\<open>C5\<close> (UV flip).  \<open>LoadModel\<close> produces a model exactly when the parser
  succeeded and every corner is readable; when the parsed texture coordinates are not
  empty this includes that the pair selected by the corner's \<open>texcoord_index\<close> lies
  inside the array.  In a model that it produces, the vertex stored for every corner
  has, when the parsed texture coordinates are not empty, the texture coordinate
  \<open>(u, 1 - v)\<close> of the source pair \<open>(u, v)\<close> that the corner's \<open>texcoord_index\<close>
  selects, and \<open>(0, 0)\<close> when they are empty; and every stored vertex is of this form.
\<close>

theorem LoadModel_uv_flip:
  "((\<exists>m. LoadModel gray filename obj = Inr m) \<longleftrightarrow>
      loaded obj \<and>
      (\<forall>k < length (corners (objShapes obj)).
         corner_readable (objAttrib obj) (fst (corners (objShapes obj) ! k)) k
           (snd (corners (objShapes obj) ! k)))) \<and>
   (\<forall>m. LoadModel gray filename obj = Inr m \<longrightarrow>
       (\<forall>k < length (corners (objShapes obj)).
         \<exists>v. make_vertex (objAttrib obj) (fst (corners (objShapes obj) ! k)) k
                (snd (corners (objShapes obj) ! k)) = Inr v \<and>
           v \<in> set (m_vertices m) \<and>
           (length (m_vertices m) \<le> 2 ^ 32 \<longrightarrow> m_vertices m ! unat (m_indices m ! k) = v) \<and>
           (attrib_texcoords (objAttrib obj) \<noteq> [] \<longrightarrow>
              TexCoord v =
                Vec2 (attrib_texcoords (objAttrib obj) !
                        nat (2 * texcoord_index (snd (corners (objShapes obj) ! k)) + 0))
                     (1 - attrib_texcoords (objAttrib obj) !
                        nat (2 * texcoord_index (snd (corners (objShapes obj) ! k)) + 1))) \<and>
           (attrib_texcoords (objAttrib obj) = [] \<longrightarrow> TexCoord v = Vec2 0 0)) \<and>
       (\<forall>v \<in> set (m_vertices m).
          (attrib_texcoords (objAttrib obj) = [] \<longrightarrow> TexCoord v = Vec2 0 0) \<and>
          (attrib_texcoords (objAttrib obj) \<noteq> [] \<longrightarrow>
             (\<exists>c \<in> set (corners (objShapes obj)).
                TexCoord v =
                  Vec2 (attrib_texcoords (objAttrib obj) ! nat (2 * texcoord_index (snd c) + 0))
                       (1 - attrib_texcoords (objAttrib obj) !
                          nat (2 * texcoord_index (snd c) + 1))))))"
  using LoadModel_produces [of gray filename obj] corner_texcoord [of gray filename obj]
  by blast

theorem LoadModel_uv_flip_witness:
  "(\<exists>m. LoadModel 7 ''quad.obj'' quad_obj = Inr m) \<and>
   attrib_texcoords (objAttrib quad_obj) ! 7 = 1 \<and>
   TexCoord (m_vertices (projr (LoadModel 7 ''quad.obj'' quad_obj)) !
      unat (m_indices (projr (LoadModel 7 ''quad.obj'' quad_obj)) ! 5)) = Vec2 0 (1 - 1) \<and>
   (\<exists>m. LoadModel 7 ''plain.obj'' plain_triangle_obj = Inr m) \<and>
   TexCoord (m_vertices (projr (LoadModel 7 ''plain.obj'' plain_triangle_obj)) ! 0) = Vec2 0 0 \<and>
   \<not> (\<exists>m. LoadModel 7 ''gap.obj'' missing_texcoord_obj = Inr m)"
proof -
  let ?m = "projr (LoadModel 7 ''quad.obj'' quad_obj)"
  let ?p = "projr (LoadModel 7 ''plain.obj'' plain_triangle_obj)"
  note inst = LoadModel_uv_flip [of 7 "''quad.obj''" quad_obj]
  note inst' = LoadModel_uv_flip [of 7 "''plain.obj''" plain_triangle_obj]
  from inst quad_readable have 1: "\<exists>m. LoadModel 7 ''quad.obj'' quad_obj = Inr m" by blast
  then have run: "LoadModel 7 ''quad.obj'' quad_obj = Inr ?m" by auto
  from inst' plain_triangle_readable
  have 2: "\<exists>m. LoadModel 7 ''plain.obj'' plain_triangle_obj = Inr m" by blast
  then have run': "LoadModel 7 ''plain.obj'' plain_triangle_obj = Inr ?p" by auto
  have c: "snd (corners (objShapes quad_obj) ! 5) = corner 3 0 3"
    by (simp add: corners_def quad_obj_def)
  have k: "5 < length (corners (objShapes quad_obj))"
    by (simp add: corners_def quad_obj_def)
  have small: "length (m_vertices ?m) \<le> 2 ^ 32" by (simp add: quad_run quad_model_def)
  have t: "attrib_texcoords (objAttrib quad_obj) = [0, 0, 1, 0, 1, 1, 0, 1]"
    by (simp add: quad_obj_def)
  from inst run k obtain v where
    v: "length (m_vertices ?m) \<le> 2 ^ 32 \<longrightarrow> m_vertices ?m ! unat (m_indices ?m ! 5) = v"
      "attrib_texcoords (objAttrib quad_obj) \<noteq> [] \<longrightarrow>
           TexCoord v =
             Vec2 (attrib_texcoords (objAttrib quad_obj) !
                     nat (2 * texcoord_index (snd (corners (objShapes quad_obj) ! 5)) + 0))
                  (1 - attrib_texcoords (objAttrib quad_obj) !
                     nat (2 * texcoord_index (snd (corners (objShapes quad_obj) ! 5)) + 1))"
    by blast
  from v(1) small have "m_vertices ?m ! unat (m_indices ?m ! 5) = v" by blast
  with v(2)
  have "TexCoord (m_vertices ?m ! unat (m_indices ?m ! 5)) =
          Vec2 ([0, 0, 1, 0, 1, 1, 0, 1] ! nat (2 * texcoord_index (corner 3 0 3) + 0))
               (1 - [0, 0, 1, 0, 1, 1, 0, 1] ! nat (2 * texcoord_index (corner 3 0 3) + 1))"
    by (simp add: c t)
  then have a: "TexCoord (m_vertices ?m ! unat (m_indices ?m ! 5)) = Vec2 0 (1 - 1)"
    by (simp add: corner_def)
  have "m_vertices ?p ! 0 \<in> set (m_vertices ?p)"
    by (simp add: plain_triangle_run plain_triangle_model_def)
  moreover have "attrib_texcoords (objAttrib plain_triangle_obj) = []"
    by (simp add: plain_triangle_obj_def)
  ultimately have b: "TexCoord (m_vertices ?p ! 0) = Vec2 0 0"
    using inst' run' by blast
  from LoadModel_uv_flip [of 7 "''gap.obj''" missing_texcoord_obj] missing_texcoord_unreadable
  have 3: "\<not> (\<exists>m. LoadModel 7 ''gap.obj'' missing_texcoord_obj = Inr m)" by blast
  from 1 2 3 a b show ?thesis by (simp add: t)
qed

end
